theory Spec2Isabelle
  imports Complex_Main "HOL-Library.Word" "HOL-Library.Sublist"
begin

unbundle bit_operations_syntax

section \<open>JavaScript values used by the gate\<close>

text \<open>
  A JavaScript \<open>number\<close> that takes part in a comparison after \<open>parseFloat\<close> is either
  \<open>NaN\<close> or a finite value, read as the rational it denotes (the two infinities are left
  out). Comparisons of such values are exact; every comparison with \<open>NaN\<close> is false and
  \<open>!==\<close> with \<open>NaN\<close> is true, as in the language. A difference is used only for its
  sign, in a sort comparator, and a product only as the argument of \<open>toFixed(6)\<close>: both
  are written exactly. A sum is rounded by the machine and is compared as it is, so
  addition is not defined here: it is the parameter \<open>numAdd\<close> below.
\<close>

datatype jsnum = JNaN | JNum rat

fun js_lt :: "jsnum \<Rightarrow> jsnum \<Rightarrow> bool" where
  "js_lt (JNum a) (JNum b) = (a < b)"
| "js_lt _ _ = False"

fun js_le :: "jsnum \<Rightarrow> jsnum \<Rightarrow> bool" where
  "js_le (JNum a) (JNum b) = (a \<le> b)"
| "js_le _ _ = False"

definition js_gt :: "jsnum \<Rightarrow> jsnum \<Rightarrow> bool" where
  "js_gt a b = js_lt b a"

definition js_ge :: "jsnum \<Rightarrow> jsnum \<Rightarrow> bool" where
  "js_ge a b = js_le b a"

fun js_neq :: "jsnum \<Rightarrow> jsnum \<Rightarrow> bool" where
  "js_neq (JNum a) (JNum b) = (a \<noteq> b)"
| "js_neq _ _ = True"

fun js_sub :: "jsnum \<Rightarrow> jsnum \<Rightarrow> jsnum" where
  "js_sub (JNum a) (JNum b) = JNum (a - b)"
| "js_sub _ _ = JNaN"

fun js_mul :: "jsnum \<Rightarrow> jsnum \<Rightarrow> jsnum" where
  "js_mul (JNum a) (JNum b) = JNum (a * b)"
| "js_mul _ _ = JNaN"

text \<open>
  The built-ins \<open>parseFloat\<close>, \<open>Number.prototype.toFixed(6)\<close> and the conversion of a
  number inside a template literal are not code of the repository, and neither is the
  addition of two numbers (\<open>+\<close> on IEEE doubles, rounding included): they are parameters
  of the model, so every theorem holds for whatever they compute.
\<close>

record jsenv =
  parseFloat :: "string \<Rightarrow> jsnum"
  toFixed6 :: "jsnum \<Rightarrow> string"
  numToString :: "jsnum \<Rightarrow> string"
  numAdd :: "jsnum \<Rightarrow> jsnum \<Rightarrow> jsnum"

text \<open>
  So are the library calls of the attestation code: \<open>randomUUID()\<close>, the SHA3-256 digest
  of a byte string, and the SHA-256 digest (in hexadecimal) of a JSON serialisation.
  \<open>Math.floor(Math.random() * 1000000)\<close> is the parameter \<open>rnd\<close> of the one function that
  calls it.
\<close>

record cryptoenv =
  randomUUID :: string
  sha3_256 :: "8 word list \<Rightarrow> 8 word list"
  sha256_hex :: "string \<Rightarrow> string"

text \<open>Digits of a natural number in a base up to 16: \<open>toString(16)\<close>, and base 10 for
  an integer inside a template literal.\<close>

definition digit_char :: "nat \<Rightarrow> char" where
  "digit_char d = ''0123456789abcdef'' ! d"

fun digits_of :: "nat \<Rightarrow> nat \<Rightarrow> string" where
  "digits_of b n =
     (if b < 2 \<or> n < b then [digit_char n]
      else digits_of b (n div b) @ [digit_char (n mod b)])"

declare digits_of.simps [simp del]

definition dec :: "int \<Rightarrow> string" where
  "dec i = (if i < 0 then CHR ''-'' # digits_of 10 (nat (- i)) else digits_of 10 (nat i))"

text \<open>
  \<open>Array.prototype.sort\<close> with a comparison function is stable; a comparison result that
  is \<open>NaN\<close> counts as \<open>0\<close>. It is modelled as a stable insertion sort: an element moves
  behind exactly those it compares greater than.
\<close>

fun sort_insert :: "('a \<Rightarrow> 'a \<Rightarrow> jsnum) \<Rightarrow> 'a \<Rightarrow> 'a list \<Rightarrow> 'a list" where
  "sort_insert cmp x [] = [x]"
| "sort_insert cmp x (y # ys) =
     (if js_gt (cmp x y) (JNum 0) then y # sort_insert cmp x ys else x # y # ys)"

definition js_sort :: "('a \<Rightarrow> 'a \<Rightarrow> jsnum) \<Rightarrow> 'a list \<Rightarrow> 'a list" where
  "js_sort cmp xs = foldr (sort_insert cmp) xs []"

text \<open>
  \<open>Date.now()\<close> reads the clock. A function that calls it takes a clock \<open>clk\<close>:
  \<open>clk i\<close> is the reading at the \<open>i\<close>-th call site of the function, in source order,
  so no two readings are assumed equal.
\<close>

type_synonym clock = "nat \<Rightarrow> int"

text \<open>Every \<open>throw new Error(...)\<close> of the modelled code, one constructor per throw site.\<close>

datatype error =
  NoValidRoutes
  | UnknownLedgerType string
  | NotYetImplemented string
  | UnsupportedCryptoPolicy string
  | InvalidRotationNode string
  | InvalidRotationConstraints
  | DependencyCycle string

fun message :: "error \<Rightarrow> string" where
  "message NoValidRoutes = ''No valid routes available''"
| "message (UnknownLedgerType t) = ''Unknown ledger type: '' @ t"
| "message (NotYetImplemented p) = p @ '' attestor not yet implemented''"
| "message (UnsupportedCryptoPolicy p) = ''Unsupported cryptoPolicy for CAR attestation: '' @ p"
| "message (InvalidRotationNode i) = ''Invalid rotation node: '' @ i"
| "message InvalidRotationConstraints = ''Invalid rotation constraints''"
| "message (DependencyCycle i) = ''Dependency cycle detected involving node: '' @ i"

section \<open>The payment intent envelope (utils/types.ts)\<close>

record Amount =
  amt_value :: string
  currency :: string

record Constraints =
  maxSlippage :: jsnum
  maxFee :: string
  expiry :: int

record RiskBounds =
  maxVolatility :: jsnum
  complianceFlags :: "string list"

record PaymentIntentEnvelope =
  intentId :: string
  action :: string
  amount :: Amount
  destination :: string
  constraints :: Constraints
  riskBounds :: RiskBounds
  allowedRoutes :: "string list"
  requiredProofs :: "string list"
  explanation :: string

section \<open>CAR compute (car/compute.ts)\<close>

record Route =
  routeId :: string
  route_type :: string
  route_path :: "string list"
  estimatedFee :: string
  estimatedTime :: jsnum
  confidence :: jsnum

record LedgerState =
  networkFee :: string
  lastLedgerIndex :: int
  reserves :: "(string \<times> string) list"

record ComputeResult =
  computeId :: string
  cr_timestamp :: int
  cr_envelope :: PaymentIntentEnvelope
  selectedRoute :: Route
  alternativeRoutes :: "Route list"
  computeTimeMs :: int

definition multiplyFee :: "jsenv \<Rightarrow> string \<Rightarrow> jsnum \<Rightarrow> string" where
  "multiplyFee js fee factor = toFixed6 js (js_mul (parseFloat js fee) factor)"

definition getCandidateRoutes ::
  "jsenv \<Rightarrow> clock \<Rightarrow> PaymentIntentEnvelope \<Rightarrow> LedgerState \<Rightarrow> Route list" where
  "getCandidateRoutes js clk envelope ledgerState =
     (if currency (amount envelope) = ''XRP''
      then [\<lparr> routeId = ''route-direct-'' @ dec (clk 0),
              route_type = ''direct'',
              route_path = [destination envelope],
              estimatedFee = networkFee ledgerState,
              estimatedTime = JNum 4,
              confidence = JNum (99 / 100) \<rparr>]
      else [])
     @ (if action envelope = ''swap'' \<or> currency (amount envelope) \<noteq> ''XRP''
        then [\<lparr> routeId = ''route-dex-'' @ dec (clk 1),
                route_type = ''xrpl-dex'',
                route_path = [''XRP'', currency (amount envelope), destination envelope],
                estimatedFee = multiplyFee js (networkFee ledgerState) (JNum 2),
                estimatedTime = JNum 8,
                confidence = JNum (9 / 10) \<rparr>]
        else [])
     @ [\<lparr> routeId = ''route-ilp-'' @ dec (clk 2),
           route_type = ''ilp'',
           route_path = [''ilp-connector'', destination envelope],
           estimatedFee = multiplyFee js (networkFee ledgerState) (JNum 3),
           estimatedTime = JNum 15,
           confidence = JNum (85 / 100) \<rparr>]"

definition filterByAllowedRoutes :: "Route list \<Rightarrow> string list \<Rightarrow> Route list" where
  "filterByAllowedRoutes routes allowed =
     (if length allowed = 0 then routes
      else filter (\<lambda>route. route_type route \<in> set allowed \<or> ''*'' \<in> set allowed) routes)"

definition routeCompare :: "jsenv \<Rightarrow> Route \<Rightarrow> Route \<Rightarrow> jsnum" where
  "routeCompare js a b =
     (if js_neq (confidence a) (confidence b) then js_sub (confidence b) (confidence a)
      else let feeA = parseFloat js (estimatedFee a);
               feeB = parseFloat js (estimatedFee b)
           in if js_neq feeA feeB then js_sub feeA feeB
              else js_sub (estimatedTime a) (estimatedTime b))"

definition selectOptimalRoute ::
  "jsenv \<Rightarrow> Route list \<Rightarrow> PaymentIntentEnvelope \<Rightarrow> error + Route" where
  "selectOptimalRoute js routes envelope =
     (if length routes = 0 then Inl NoValidRoutes
      else let sorted = js_sort (routeCompare js) routes;
               maxFeeN = parseFloat js (maxFee (constraints envelope));
               validRoutes = filter (\<lambda>r. js_le (parseFloat js (estimatedFee r)) maxFeeN) sorted
           in if length validRoutes = 0 then Inr (sorted ! 0)
              else Inr (validRoutes ! 0))"

text \<open>Clock call sites of \<open>compute\<close>: 0 is \<open>startTime\<close>, 1 to 3 are the three route
  identifiers built by \<open>getCandidateRoutes\<close>, 4 ends the timing, 5 is the compute
  identifier and 6 the timestamp.\<close>

definition compute ::
  "jsenv \<Rightarrow> clock \<Rightarrow> PaymentIntentEnvelope \<Rightarrow> LedgerState \<Rightarrow> error + ComputeResult" where
  "compute js clk envelope ledgerState =
     (let startTime = clk 0;
          candidates = getCandidateRoutes js (\<lambda>i. clk (i + 1)) envelope ledgerState;
          allowedCandidates = filterByAllowedRoutes candidates (allowedRoutes envelope)
      in case selectOptimalRoute js allowedCandidates envelope of
           Inl e \<Rightarrow> Inl e
         | Inr selected \<Rightarrow>
             Inr \<lparr> computeId = ''compute-'' @ dec (clk 5),
                   cr_timestamp = clk 6,
                   cr_envelope = envelope,
                   selectedRoute = selected,
                   alternativeRoutes =
                     filter (\<lambda>r. routeId r \<noteq> routeId selected) allowedCandidates,
                   computeTimeMs = clk 4 - startTime \<rparr>)"

text \<open>What a route says apart from its identifier, and what a compute result selects.\<close>

definition route_content :: "Route \<Rightarrow> string \<times> string list \<times> string \<times> jsnum \<times> jsnum" where
  "route_content r = (route_type r, route_path r, estimatedFee r, estimatedTime r, confidence r)"

definition selection :: "ComputeResult \<Rightarrow> Route \<times> Route list" where
  "selection cr = (selectedRoute cr, alternativeRoutes cr)"

definition selection_content ::
  "ComputeResult \<Rightarrow> (string \<times> string list \<times> string \<times> jsnum \<times> jsnum)
      \<times> (string \<times> string list \<times> string \<times> jsnum \<times> jsnum) list" where
  "selection_content cr =
     (route_content (selectedRoute cr), map route_content (alternativeRoutes cr))"

section \<open>CAR validate (car/validate.ts)\<close>

record ValidationResult =
  isValid :: bool
  errors :: "string list"
  warnings :: "string list"
  vr_attestation :: "string option"

record CARValidationConfig =
  maxTransactionSize :: string
  minBalance :: string
  requireDestinationTag :: bool
  blockedDestinations :: "string list"
  maxPendingTransactions :: int

definition DEFAULT_CONFIG :: CARValidationConfig where
  "DEFAULT_CONFIG = \<lparr> maxTransactionSize = ''100000'',
                       minBalance = ''20'',
                       requireDestinationTag = False,
                       blockedDestinations = [],
                       maxPendingTransactions = 10 \<rparr>"

definition validate ::
  "jsenv \<Rightarrow> clock \<Rightarrow> ComputeResult \<Rightarrow> LedgerState \<Rightarrow> string \<Rightarrow> CARValidationConfig
     \<Rightarrow> ValidationResult" where
  "validate js clk computeResult ledgerState sourceBalance config =
     (let envelope = cr_envelope computeResult;
          amountN = parseFloat js (amt_value (amount envelope));
          maxSize = parseFloat js (maxTransactionSize config);
          errors1 = (if js_gt amountN maxSize
                     then [''Amount '' @ numToString js amountN
                           @ '' exceeds max transaction size '' @ numToString js maxSize]
                     else []);
          balance = parseFloat js sourceBalance;
          fee = parseFloat js (estimatedFee (selectedRoute computeResult));
          minBalanceN = parseFloat js (minBalance config);
          required = numAdd js (numAdd js amountN fee) minBalanceN;
          errors2 = (if js_lt balance required
                     then errors1 @ [''Insufficient balance: have '' @ numToString js balance
                           @ '', need '' @ numToString js required
                           @ '' (amount + fee + reserve)'']
                     else errors1);
          errors3 = (if destination envelope \<in> set (blockedDestinations config)
                     then errors2 @ [''Destination '' @ destination envelope @ '' is blocked'']
                     else errors2);
          errors4 = (if js_gt fee (parseFloat js (maxFee (constraints envelope)))
                     then errors3 @ [''Route fee '' @ numToString js fee
                           @ '' exceeds max fee '' @ maxFee (constraints envelope)]
                     else errors3);
          now = clk 0 div 1000;
          errors5 = (if now \<ge> expiry (constraints envelope)
                     then errors4 @ [''Envelope expired at '' @ dec (expiry (constraints envelope))
                           @ '', current time '' @ dec now]
                     else errors4);
          warnings1 = (if length (requiredProofs envelope) > 0
                       then [''Proof verification not yet implemented'']
                       else []);
          warnings2 = (if js_lt (confidence (selectedRoute computeResult)) (JNum (8 / 10))
                       then warnings1 @ [''Selected route confidence ''
                              @ numToString js (confidence (selectedRoute computeResult))
                              @ '' is below recommended threshold'']
                       else warnings1)
      in \<lparr> isValid = (length errors5 = 0),
           errors = errors5,
           warnings = warnings2,
           vr_attestation = None \<rparr>)"

text \<open>\<open>preValidate\<close>: the cheap check before the full computation (clock site 0).\<close>

definition preValidate ::
  "clock \<Rightarrow> PaymentIntentEnvelope \<Rightarrow> LedgerState \<Rightarrow> bool \<times> string option" where
  "preValidate clk envelope ledgerState =
     (if clk 0 div 1000 \<ge> expiry (constraints envelope)
      then (False, Some ''Envelope already expired'')
      else if lastLedgerIndex ledgerState = 0
      then (False, Some ''Ledger state unavailable'')
      else (True, None))"

section \<open>PIE schema helpers (pie/pie.schema.ts)\<close>

definition isExpired :: "clock \<Rightarrow> PaymentIntentEnvelope \<Rightarrow> bool" where
  "isExpired clk envelope = (clk 0 > expiry (constraints envelope) * 1000)"

section \<open>The rules of the validator, one by one\<close>

text \<open>The five error rules of \<open>validate\<close>, each as the condition under which the source
  pushes onto \<open>errors\<close> and the message it pushes there.\<close>

definition rule1_fails :: "jsenv \<Rightarrow> ComputeResult \<Rightarrow> CARValidationConfig \<Rightarrow> bool" where
  "rule1_fails js computeResult config =
     js_gt (parseFloat js (amt_value (amount (cr_envelope computeResult))))
           (parseFloat js (maxTransactionSize config))"

definition rule1_msg :: "jsenv \<Rightarrow> ComputeResult \<Rightarrow> CARValidationConfig \<Rightarrow> string" where
  "rule1_msg js computeResult config =
     ''Amount '' @ numToString js (parseFloat js (amt_value (amount (cr_envelope computeResult))))
     @ '' exceeds max transaction size '' @ numToString js (parseFloat js (maxTransactionSize config))"

definition required_balance :: "jsenv \<Rightarrow> ComputeResult \<Rightarrow> CARValidationConfig \<Rightarrow> jsnum" where
  "required_balance js computeResult config =
     numAdd js
       (numAdd js (parseFloat js (amt_value (amount (cr_envelope computeResult))))
                  (parseFloat js (estimatedFee (selectedRoute computeResult))))
       (parseFloat js (minBalance config))"

definition rule2_fails :: "jsenv \<Rightarrow> ComputeResult \<Rightarrow> string \<Rightarrow> CARValidationConfig \<Rightarrow> bool" where
  "rule2_fails js computeResult sourceBalance config =
     js_lt (parseFloat js sourceBalance) (required_balance js computeResult config)"

definition rule2_msg :: "jsenv \<Rightarrow> ComputeResult \<Rightarrow> string \<Rightarrow> CARValidationConfig \<Rightarrow> string" where
  "rule2_msg js computeResult sourceBalance config =
     ''Insufficient balance: have '' @ numToString js (parseFloat js sourceBalance)
     @ '', need '' @ numToString js (required_balance js computeResult config)
     @ '' (amount + fee + reserve)''"

definition rule3_fails :: "ComputeResult \<Rightarrow> CARValidationConfig \<Rightarrow> bool" where
  "rule3_fails computeResult config =
     (destination (cr_envelope computeResult) \<in> set (blockedDestinations config))"

definition rule3_msg :: "ComputeResult \<Rightarrow> string" where
  "rule3_msg computeResult =
     ''Destination '' @ destination (cr_envelope computeResult) @ '' is blocked''"

definition rule4_fails :: "jsenv \<Rightarrow> ComputeResult \<Rightarrow> bool" where
  "rule4_fails js computeResult =
     js_gt (parseFloat js (estimatedFee (selectedRoute computeResult)))
           (parseFloat js (maxFee (constraints (cr_envelope computeResult))))"

definition rule4_msg :: "jsenv \<Rightarrow> ComputeResult \<Rightarrow> string" where
  "rule4_msg js computeResult =
     ''Route fee '' @ numToString js (parseFloat js (estimatedFee (selectedRoute computeResult)))
     @ '' exceeds max fee '' @ maxFee (constraints (cr_envelope computeResult))"

definition rule5_fails :: "clock \<Rightarrow> ComputeResult \<Rightarrow> bool" where
  "rule5_fails clk computeResult =
     (clk 0 div 1000 \<ge> expiry (constraints (cr_envelope computeResult)))"

definition rule5_msg :: "clock \<Rightarrow> ComputeResult \<Rightarrow> string" where
  "rule5_msg clk computeResult =
     ''Envelope expired at '' @ dec (expiry (constraints (cr_envelope computeResult)))
     @ '', current time '' @ dec (clk 0 div 1000)"

text \<open>The two warning rules: the condition under which the source pushes onto
  \<open>warnings\<close>, and the message.\<close>

definition rule6_warns :: "ComputeResult \<Rightarrow> bool" where
  "rule6_warns computeResult = (length (requiredProofs (cr_envelope computeResult)) > 0)"

definition rule7_warns :: "ComputeResult \<Rightarrow> bool" where
  "rule7_warns computeResult = js_lt (confidence (selectedRoute computeResult)) (JNum (8 / 10))"

definition rule7_msg :: "jsenv \<Rightarrow> ComputeResult \<Rightarrow> string" where
  "rule7_msg js computeResult =
     ''Selected route confidence '' @ numToString js (confidence (selectedRoute computeResult))
     @ '' is below recommended threshold''"

definition warnChecks :: "jsenv \<Rightarrow> ComputeResult \<Rightarrow> (bool \<times> string) list" where
  "warnChecks js computeResult =
     [(rule6_warns computeResult, ''Proof verification not yet implemented''),
      (rule7_warns computeResult, rule7_msg js computeResult)]"

text \<open>The rules in source order, as (fails, message) pairs.\<close>

definition ruleChecks ::
  "jsenv \<Rightarrow> clock \<Rightarrow> ComputeResult \<Rightarrow> string \<Rightarrow> CARValidationConfig \<Rightarrow> (bool \<times> string) list" where
  "ruleChecks js clk computeResult sourceBalance config =
     [(rule1_fails js computeResult config, rule1_msg js computeResult config),
      (rule2_fails js computeResult sourceBalance config,
       rule2_msg js computeResult sourceBalance config),
      (rule3_fails computeResult config, rule3_msg computeResult),
      (rule4_fails js computeResult, rule4_msg js computeResult),
      (rule5_fails clk computeResult, rule5_msg clk computeResult)]"

text \<open>The fee test of \<open>selectOptimalRoute\<close>: the estimated fee of a route is within the
  \<open>maxFee\<close> of the envelope.\<close>

definition feeWithin :: "jsenv \<Rightarrow> PaymentIntentEnvelope \<Rightarrow> Route \<Rightarrow> bool" where
  "feeWithin js envelope r =
     js_le (parseFloat js (estimatedFee r)) (parseFloat js (maxFee (constraints envelope)))"

section \<open>Attestation utilities (utils/crypto.ts, utils/types.ts)\<close>

record AttestationRecord =
  ar_attestationId :: string
  envelopeId :: string
  ar_timestamp :: int
  signature :: string
  publicKey :: string
  validationHash :: string

text \<open>
  \<open>hashEnvelope\<close> runs over the UTF-16 code units of \<open>JSON.stringify(envelope)\<close>; the
  serialisation is the parameter \<open>stringify\<close>. The accumulator is a 32-bit integer:
  \<open>hash & hash\<close> brings the sum back to 32 bits after every step, which a \<open>32 word\<close>
  does by itself. \<open>Math.abs\<close> of the signed value is then written in base 16.
\<close>

definition hashStep :: "32 word \<Rightarrow> 16 word \<Rightarrow> 32 word" where
  "hashStep hash c = (let h = (push_bit 5 hash - hash) + ucast c in h AND h)"

definition hashEnvelope :: "('e \<Rightarrow> 16 word list) \<Rightarrow> 'e \<Rightarrow> string" where
  "hashEnvelope stringify envelope =
     (let serialized = stringify envelope;
          hash = foldl hashStep 0 serialized
      in ''hash-'' @ digits_of 16 (nat \<bar>sint hash\<bar>))"

definition signAttestation :: "clock \<Rightarrow> string \<Rightarrow> string \<Rightarrow> string" where
  "signAttestation clk envelopeHash privateKey = ''sig-'' @ envelopeHash @ ''-'' @ dec (clk 0)"

definition verifySignature :: "AttestationRecord \<Rightarrow> string \<Rightarrow> bool" where
  "verifySignature attestation pubKey = False"

definition generateKeypair :: "clock \<Rightarrow> string \<times> string" where
  "generateKeypair clk = (''pub-'' @ dec (clk 0), ''priv-'' @ dec (clk 1))"

text \<open>Clock sites of \<open>createAttestation\<close>: 0 inside \<open>signAttestation\<close>, 1 for the
  attestation identifier, 2 for the timestamp.\<close>

definition createAttestation ::
  "(PaymentIntentEnvelope \<Rightarrow> 16 word list) \<Rightarrow> clock \<Rightarrow> PaymentIntentEnvelope \<Rightarrow> string \<Rightarrow> string
     \<Rightarrow> AttestationRecord" where
  "createAttestation stringify clk envelope privateKey pubKey =
     (let vHash = hashEnvelope stringify envelope;
          sig = signAttestation clk vHash privateKey
      in \<lparr> ar_attestationId = ''attest-'' @ dec (clk 1),
           envelopeId = intentId envelope,
           ar_timestamp = clk 2,
           signature = sig,
           publicKey = pubKey,
           validationHash = vHash \<rparr>)"

definition verifyAttestation ::
  "(PaymentIntentEnvelope \<Rightarrow> 16 word list) \<Rightarrow> PaymentIntentEnvelope \<Rightarrow> AttestationRecord \<Rightarrow> bool" where
  "verifyAttestation stringify envelope attestation =
     (let computedHash = hashEnvelope stringify envelope
      in if computedHash \<noteq> validationHash attestation then False
         else verifySignature attestation (publicKey attestation))"

section \<open>CAR attest (car/attest.ts)\<close>

record AttestResult =
  attestId :: string
  at_timestamp :: int
  at_envelope :: PaymentIntentEnvelope
  computeResult :: ComputeResult
  validationResult :: ValidationResult
  attestation :: AttestationRecord
  attestationChain :: "AttestationRecord list"

text \<open>\<open>attest\<close> returns \<open>null\<close> for an invalid envelope. Clock sites 0 to 2 are those of
  \<open>createAttestation\<close>, 3 is the attest identifier and 4 the timestamp.\<close>

definition attest ::
  "(PaymentIntentEnvelope \<Rightarrow> 16 word list) \<Rightarrow> clock \<Rightarrow> PaymentIntentEnvelope \<Rightarrow> ComputeResult
     \<Rightarrow> ValidationResult \<Rightarrow> string \<Rightarrow> string \<Rightarrow> AttestResult option" where
  "attest stringify clk envelope cr vr privateKey pubKey =
     (if \<not> isValid vr then None
      else let att = createAttestation stringify clk envelope privateKey pubKey
           in Some \<lparr> attestId = ''attest-'' @ dec (clk 3),
                     at_timestamp = clk 4,
                     at_envelope = envelope,
                     computeResult = cr,
                     validationResult = vr,
                     attestation = att,
                     attestationChain = [att] \<rparr>)"

definition verifyAttest ::
  "(PaymentIntentEnvelope \<Rightarrow> 16 word list) \<Rightarrow> PaymentIntentEnvelope \<Rightarrow> AttestationRecord \<Rightarrow> bool" where
  "verifyAttest stringify envelope att = verifyAttestation stringify envelope att"

definition isAttestationValid :: "clock \<Rightarrow> AttestationRecord \<Rightarrow> int \<Rightarrow> bool" where
  "isAttestationValid clk att maxAge = (let age = clk 0 - ar_timestamp att in age < maxAge)"

section \<open>CAR route (car/route.ts)\<close>

record RouteConfig =
  ledgerType :: string
  nodeUrl :: string
  timeout :: int
  retryCount :: int

record SubmissionResult =
  success :: bool
  transactionHash :: "string option"
  ledgerIndex :: "int option"
  sr_error :: "string option"

datatype ledger_response = Undefined | Null | Simulated

record RouteResult =
  rr_routeId :: string
  rr_timestamp :: int
  attestResult :: AttestResult
  submission :: SubmissionResult
  ledgerResponse :: ledger_response

text \<open>The module-level variables \<open>routingHalted\<close> and \<open>haltReason\<close>, with their initial
  values, and the three functions that write and read them.\<close>

record HaltState =
  routingHalted :: bool
  haltReason :: "string option"

definition initialHaltState :: HaltState where
  "initialHaltState = \<lparr> routingHalted = False, haltReason = None \<rparr>"

definition haltRouting :: "string \<Rightarrow> HaltState \<Rightarrow> HaltState" where
  "haltRouting reason st = st \<lparr> routingHalted := True, haltReason := Some reason \<rparr>"

definition resumeRouting :: "HaltState \<Rightarrow> HaltState" where
  "resumeRouting st = st \<lparr> routingHalted := False, haltReason := None \<rparr>"

definition isRoutingHalted :: "HaltState \<Rightarrow> bool \<times> string option" where
  "isRoutingHalted st = (routingHalted st, haltReason st)"

text \<open>The three backends. Each returns the submission result and the ledger response.\<close>

definition submitToXRPL :: "AttestResult \<Rightarrow> RouteConfig \<Rightarrow> SubmissionResult \<times> ledger_response" where
  "submitToXRPL ar config =
     (\<lparr> success = False, transactionHash = None, ledgerIndex = None,
        sr_error = Some ''XRPL submission not yet implemented'' \<rparr>, Null)"

definition submitToILP :: "AttestResult \<Rightarrow> RouteConfig \<Rightarrow> SubmissionResult \<times> ledger_response" where
  "submitToILP ar config =
     (\<lparr> success = False, transactionHash = None, ledgerIndex = None,
        sr_error = Some ''ILP submission not yet implemented'' \<rparr>, Null)"

definition submitToTestnet ::
  "clock \<Rightarrow> int \<Rightarrow> AttestResult \<Rightarrow> RouteConfig \<Rightarrow> SubmissionResult \<times> ledger_response" where
  "submitToTestnet clk rnd ar config =
     (\<lparr> success = True, transactionHash = Some (''test-tx-'' @ dec (clk 0)),
        ledgerIndex = Some rnd, sr_error = None \<rparr>, Simulated)"

text \<open>
  \<open>route\<close> is given the module state \<open>st\<close> it runs in, the clock and the random ledger
  index. It returns the route result together with the list of backends it has called,
  in call order. Clock sites: 0 inside \<open>isAttestationValid\<close>, 1 and 2 in the expired
  branch, 3 inside \<open>submitToTestnet\<close>, 4 and 5 in the final result. The \<open>default\<close>
  branch of the \<open>switch\<close> throws; the \<open>catch\<close> turns the error into a failed submission
  whose text is \<open>String(error)\<close>.
\<close>

definition route ::
  "HaltState \<Rightarrow> clock \<Rightarrow> int \<Rightarrow> AttestResult \<Rightarrow> RouteConfig \<Rightarrow> RouteResult \<times> string list" where
  "route st clk rnd ar config =
     (if \<not> isAttestationValid clk (attestation ar) 300000
      then (\<lparr> rr_routeId = ''route-'' @ dec (clk 1),
              rr_timestamp = clk 2,
              attestResult = ar,
              submission = \<lparr> success = False, transactionHash = None, ledgerIndex = None,
                             sr_error = Some ''Attestation expired'' \<rparr>,
              ledgerResponse = Undefined \<rparr>, [])
      else let (outcome, calls) =
                 (if ledgerType config = ''xrpl'' then (Inr (submitToXRPL ar config), [''xrpl''])
                  else if ledgerType config = ''ilp'' then (Inr (submitToILP ar config), [''ilp''])
                  else if ledgerType config = ''test''
                  then (Inr (submitToTestnet (\<lambda>i. clk (i + 3)) rnd ar config), [''test''])
                  else (Inl (UnknownLedgerType (ledgerType config)), []));
               (sub, resp) =
                 (case outcome of
                    Inr r \<Rightarrow> r
                  | Inl e \<Rightarrow> (\<lparr> success = False, transactionHash = None, ledgerIndex = None,
                                sr_error = Some (''Error: '' @ message e) \<rparr>, Undefined))
           in (\<lparr> rr_routeId = ''route-'' @ dec (clk 4),
                 rr_timestamp = clk 5,
                 attestResult = ar,
                 submission = sub,
                 ledgerResponse = resp \<rparr>, calls))"

section \<open>Crypto policies (security/pqc/policy.ts)\<close>

text \<open>A \<open>CryptoPolicyId\<close> is a string at run time; the four identifiers the type lists:\<close>

definition CLASSICAL_ONLY :: string where
  "CLASSICAL_ONLY = ''CLASSICAL_ONLY''"

definition HYBRID_ECDSA_SECP256K1_PLUS_DILITHIUM :: string where
  "HYBRID_ECDSA_SECP256K1_PLUS_DILITHIUM = ''HYBRID_ECDSA_SECP256K1_PLUS_DILITHIUM''"

definition HYBRID_ED25519_PLUS_DILITHIUM :: string where
  "HYBRID_ED25519_PLUS_DILITHIUM = ''HYBRID_ED25519_PLUS_DILITHIUM''"

definition PQC_ONLY_DILITHIUM :: string where
  "PQC_ONLY_DILITHIUM = ''PQC_ONLY_DILITHIUM''"

definition policyIds :: "string list" where
  "policyIds = [CLASSICAL_ONLY, HYBRID_ECDSA_SECP256K1_PLUS_DILITHIUM,
                HYBRID_ED25519_PLUS_DILITHIUM, PQC_ONLY_DILITHIUM]"

text \<open>\<open>getRequiredAlgorithms\<close>: the classical and the post-quantum algorithms of a policy.\<close>

definition getRequiredAlgorithms :: "string \<Rightarrow> string list \<times> string list" where
  "getRequiredAlgorithms policy =
     (if policy = CLASSICAL_ONLY then ([''ed25519'', ''secp256k1''], [])
      else if policy = HYBRID_ECDSA_SECP256K1_PLUS_DILITHIUM
      then ([''secp256k1''], [''dilithium2'', ''dilithium3'', ''dilithium5''])
      else if policy = HYBRID_ED25519_PLUS_DILITHIUM
      then ([''ed25519''], [''dilithium2'', ''dilithium3'', ''dilithium5''])
      else if policy = PQC_ONLY_DILITHIUM
      then ([], [''dilithium2'', ''dilithium3'', ''dilithium5''])
      else ([], []))"

section \<open>Hybrid attestations (security/pqc/attestation.ts)\<close>

record SigField =
  alg :: string
  publicKeyHex :: string
  signatureHex :: string

record CarAttestation =
  attestationId :: string
  suite :: string
  cryptoPolicy :: string
  keyEpoch :: int
  createdAt :: int
  envelopeHashHex :: string
  classicalSig :: "SigField option"
  pqcSig :: "SigField option"
  meta :: "(string \<times> string) list option"

text \<open>\<open>String.prototype.includes\<close>: the second string occurs somewhere in the first.\<close>

fun str_includes :: "string \<Rightarrow> string \<Rightarrow> bool" where
  "str_includes [] sub = (sub = [])"
| "str_includes (c # cs) sub = (prefix sub (c # cs) \<or> str_includes cs sub)"

text \<open>
  \<open>isValidAttestationStructure\<close>. A string is falsy when it is empty; an object is never
  falsy, so \<open>!attestation.classicalSig\<close> holds exactly when the field is absent. The two
  \<open>typeof ... !== 'number'\<close> tests are false for every value of the declared type and
  leave no trace here.
\<close>

definition isValidAttestationStructure :: "CarAttestation \<Rightarrow> bool" where
  "isValidAttestationStructure att =
     (if attestationId att = [] then False
      else if suite att = [] then False
      else if cryptoPolicy att = [] then False
      else if envelopeHashHex att = [] then False
      else if str_includes (cryptoPolicy att) ''HYBRID''
              \<and> (classicalSig att = None \<or> pqcSig att = None) then False
      else if str_includes (cryptoPolicy att) ''PQC_ONLY'' \<and> pqcSig att = None then False
      else True)"

definition isAttestationExpired :: "clock \<Rightarrow> CarAttestation \<Rightarrow> int \<Rightarrow> bool" where
  "isAttestationExpired clk att maxAgeMs = (clk 0 - createdAt att > maxAgeMs)"

definition getAttestationAge :: "clock \<Rightarrow> CarAttestation \<Rightarrow> int" where
  "getAttestationAge clk att = clk 0 - createdAt att"

section \<open>Attestation suites (car/attest/suites, car/attest/index.ts)\<close>

record AttestInput =
  ai_envelope :: PaymentIntentEnvelope
  envelopeCanonicalBytes :: "8 word list"
  ai_keyEpoch :: int

record AttestOutput =
  ao_attestation :: CarAttestation
  attestationHashHex :: string

text \<open>\<open>Buffer.toString("hex")\<close>: two lower-case hexadecimal digits per byte.\<close>

definition hex_of_bytes :: "8 word list \<Rightarrow> string" where
  "hex_of_bytes bs =
     concat (map (\<lambda>b. [digit_char (unat b div 16), digit_char (unat b mod 16)]) bs)"

text \<open>The placeholder signers of the two suites.\<close>

definition signEcdsaSecp256k1 :: "8 word list \<Rightarrow> string \<times> string" where
  "signEcdsaSecp256k1 msg =
     (''SECP256K1_PUBLIC_KEY_HEX_PLACEHOLDER'', ''SECP256K1_SIGNATURE_HEX_PLACEHOLDER'')"

definition signEd25519 :: "8 word list \<Rightarrow> string \<times> string" where
  "signEd25519 msg =
     (''ED25519_PUBLIC_KEY_HEX_PLACEHOLDER'', ''ED25519_SIGNATURE_HEX_PLACEHOLDER'')"

definition signDilithium :: "8 word list \<Rightarrow> SigField" where
  "signDilithium msg =
     \<lparr> alg = ''dilithium2'',
       publicKeyHex = ''DILITHIUM_PUBLIC_KEY_HEX_PLACEHOLDER'',
       signatureHex = ''DILITHIUM_SIGNATURE_HEX_PLACEHOLDER'' \<rparr>"

text \<open>
  The \<open>attest\<close> function of each suite. \<open>stringifyAtt\<close> is \<open>JSON.stringify\<close> on an
  attestation; the clock is read once (site 0).
\<close>

definition ecdsaDilithiumAttest ::
  "cryptoenv \<Rightarrow> (CarAttestation \<Rightarrow> string) \<Rightarrow> clock \<Rightarrow> AttestInput \<Rightarrow> AttestOutput" where
  "ecdsaDilithiumAttest ce stringifyAtt clk input =
     (let envelopeHash = sha3_256 ce (envelopeCanonicalBytes input);
          hashHex = hex_of_bytes envelopeHash;
          classical = signEcdsaSecp256k1 envelopeHash;
          pqc = signDilithium envelopeHash;
          att = \<lparr> attestationId = randomUUID ce,
                  suite = ''CAR_ATTEST_V1_HYBRID'',
                  cryptoPolicy = ''HYBRID_ECDSA_SECP256K1_PLUS_DILITHIUM'',
                  keyEpoch = ai_keyEpoch input,
                  createdAt = clk 0,
                  envelopeHashHex = hashHex,
                  classicalSig = Some \<lparr> alg = ''secp256k1'',
                                        publicKeyHex = fst classical,
                                        signatureHex = snd classical \<rparr>,
                  pqcSig = Some \<lparr> alg = alg pqc,
                                  publicKeyHex = publicKeyHex pqc,
                                  signatureHex = signatureHex pqc \<rparr>,
                  meta = Some [(''note'',
                    ''Hybrid attestation: secp256k1 + dilithium over SHA3-256(envelope)'')] \<rparr>
      in \<lparr> ao_attestation = att, attestationHashHex = sha256_hex ce (stringifyAtt att) \<rparr>)"

definition ed25519DilithiumAttest ::
  "cryptoenv \<Rightarrow> (CarAttestation \<Rightarrow> string) \<Rightarrow> clock \<Rightarrow> AttestInput \<Rightarrow> AttestOutput" where
  "ed25519DilithiumAttest ce stringifyAtt clk input =
     (let envelopeHash = sha3_256 ce (envelopeCanonicalBytes input);
          hashHex = hex_of_bytes envelopeHash;
          classical = signEd25519 envelopeHash;
          pqc = signDilithium envelopeHash;
          att = \<lparr> attestationId = randomUUID ce,
                  suite = ''CAR_ATTEST_V1_HYBRID'',
                  cryptoPolicy = ''HYBRID_ED25519_PLUS_DILITHIUM'',
                  keyEpoch = ai_keyEpoch input,
                  createdAt = clk 0,
                  envelopeHashHex = hashHex,
                  classicalSig = Some \<lparr> alg = ''ed25519'',
                                        publicKeyHex = fst classical,
                                        signatureHex = snd classical \<rparr>,
                  pqcSig = Some \<lparr> alg = alg pqc,
                                  publicKeyHex = publicKeyHex pqc,
                                  signatureHex = signatureHex pqc \<rparr>,
                  meta = Some [(''note'',
                    ''Hybrid attestation: ed25519 + dilithium over SHA3-256(envelope)'')] \<rparr>
      in \<lparr> ao_attestation = att, attestationHashHex = sha256_hex ce (stringifyAtt att) \<rparr>)"

record CarAttestor =
  attestor_id :: string
  supports :: "string list"
  attestor_attest :: "cryptoenv \<Rightarrow> (CarAttestation \<Rightarrow> string) \<Rightarrow> clock \<Rightarrow> AttestInput \<Rightarrow> AttestOutput"

definition hybridEcdsaDilithiumSuite :: CarAttestor where
  "hybridEcdsaDilithiumSuite =
     \<lparr> attestor_id = ''CAR_ATTEST_V1_HYBRID_ECDSA_DILITHIUM'',
       supports = [''HYBRID_ECDSA_SECP256K1_PLUS_DILITHIUM''],
       attestor_attest = ecdsaDilithiumAttest \<rparr>"

definition hybridEd25519DilithiumSuite :: CarAttestor where
  "hybridEd25519DilithiumSuite =
     \<lparr> attestor_id = ''CAR_ATTEST_V1_HYBRID_ED25519_DILITHIUM'',
       supports = [''HYBRID_ED25519_PLUS_DILITHIUM''],
       attestor_attest = ed25519DilithiumAttest \<rparr>"

text \<open>\<open>createAttestor\<close>: the \<open>switch\<close> over the policy, in source order.\<close>

definition createAttestor :: "string \<Rightarrow> error + CarAttestor" where
  "createAttestor policy =
     (if policy = ''HYBRID_ED25519_PLUS_DILITHIUM'' then Inr hybridEd25519DilithiumSuite
      else if policy = ''HYBRID_ECDSA_SECP256K1_PLUS_DILITHIUM'' then Inr hybridEcdsaDilithiumSuite
      else if policy = ''CLASSICAL_ONLY'' then Inl (NotYetImplemented ''CLASSICAL_ONLY'')
      else if policy = ''PQC_ONLY_DILITHIUM'' then Inl (NotYetImplemented ''PQC_ONLY_DILITHIUM'')
      else Inl (UnsupportedCryptoPolicy policy))"

definition getSupportedPolicies :: "string list" where
  "getSupportedPolicies =
     [''HYBRID_ED25519_PLUS_DILITHIUM'', ''HYBRID_ECDSA_SECP256K1_PLUS_DILITHIUM'']"

definition isPolicySupported :: "string \<Rightarrow> bool" where
  "isPolicySupported policy = (policy \<in> set getSupportedPolicies)"

section \<open>Key rotation planning (optimizers/dwave/model.ts, adapter.ts, index.ts)\<close>

datatype RotationTier = CRITICAL | HIGH | MEDIUM | LOW

record RotationNode =
  node_id :: string
  tier :: RotationTier
  windowStartUtc :: string
  windowEndUtc :: string
  maxDowntimeMinutes :: int
  dependencies :: "string list"


record RotationConstraints =
  maxConcurrent :: int
  maxTotalDowntimeMinutes :: int
  epochTarget :: int

record RotationPlanItem =
  item_id :: string
  scheduledStartUtc :: string
  scheduledEndUtc :: string
  item_epoch :: int

record RotationPlan =
  plan_epoch :: int
  plan_items :: "RotationPlanItem list"
  score :: int
  plan_notes :: "string list option"

fun TIER_PRIORITY :: "RotationTier \<Rightarrow> int" where
  "TIER_PRIORITY CRITICAL = 0"
| "TIER_PRIORITY HIGH = 1"
| "TIER_PRIORITY MEDIUM = 2"
| "TIER_PRIORITY LOW = 3"

text \<open>
  The structural checks. A string is falsy when empty. The tests on the tier and the
  \<open>typeof\<close> and \<open>Array.isArray\<close> tests hold for every value of the declared types, so only
  the tests on the three strings and on \<open>maxConcurrent\<close> remain.
\<close>

definition isValidRotationNode :: "RotationNode \<Rightarrow> bool" where
  "isValidRotationNode node =
     (if node_id node = [] then False
      else if windowStartUtc node = [] \<or> windowEndUtc node = [] then False
      else True)"

definition isValidConstraints :: "RotationConstraints \<Rightarrow> bool" where
  "isValidConstraints cons = (if maxConcurrent cons < 1 then False else True)"

text \<open>
  An adapter has an identifier and a \<open>solve\<close> function, whose promise resolves to a plan
  or rejects. The default is the greedy adapter; \<open>String.prototype.localeCompare\<close> is its
  parameter.
\<close>

record RotationOptimizerAdapter =
  adapter_id :: string
  solve :: "RotationNode list \<Rightarrow> RotationConstraints \<Rightarrow> error + RotationPlan"

definition greedySolve ::
  "(string \<Rightarrow> string \<Rightarrow> int) \<Rightarrow> RotationNode list \<Rightarrow> RotationConstraints
     \<Rightarrow> error + RotationPlan" where
  "greedySolve localeCompare nodes cons =
     (let sorted = js_sort
            (\<lambda>a b. let d = TIER_PRIORITY (tier a) - TIER_PRIORITY (tier b)
                   in JNum (of_int (if d \<noteq> 0 then d
                                    else localeCompare (windowStartUtc a) (windowStartUtc b))))
            nodes;
          its = map (\<lambda>n. \<lparr> item_id = node_id n,
                            scheduledStartUtc = windowStartUtc n,
                            scheduledEndUtc = windowEndUtc n,
                            item_epoch = epochTarget cons \<rparr>) sorted;
          sc = int (length its)
      in Inr \<lparr> plan_epoch = epochTarget cons,
               plan_items = its,
               score = sc,
               plan_notes = Some [''Used GREEDY_FALLBACK_V1 adapter (no D-Wave).'',
                             ''Processed '' @ dec (int (length nodes)) @ '' nodes.'',
                             ''maxConcurrent='' @ dec (maxConcurrent cons)
                               @ '' constraint applied via sequential scheduling.''] \<rparr>)"

definition greedyRotationAdapter :: "(string \<Rightarrow> string \<Rightarrow> int) \<Rightarrow> RotationOptimizerAdapter" where
  "greedyRotationAdapter localeCompare =
     \<lparr> adapter_id = ''GREEDY_FALLBACK_V1'', solve = greedySolve localeCompare \<rparr>"

text \<open>
  \<open>validateNoCycles\<close>. \<open>new Map(nodes.map(n => [n.id, n]))\<close> keeps the last node of
  each identifier. The closure \<open>hasCycle\<close> updates the two sets \<open>visited\<close> and \<open>inStack\<close>;
  here it takes them as a pair and returns them with its answer. \<open>hasCycleDeps\<close> is its
  loop over the dependencies of a node, which returns at the first dependency that
  reports a cycle.
\<close>

definition nodeMap :: "RotationNode list \<Rightarrow> string \<Rightarrow> RotationNode option" where
  "nodeMap nodes = map_of (rev (map (\<lambda>n. (node_id n, n)) nodes))"

type_synonym dfs_state = "string set \<times> string set"

function hasCycle :: "RotationNode list \<Rightarrow> dfs_state \<Rightarrow> string \<Rightarrow> bool \<times> dfs_state"
  and hasCycleDeps :: "RotationNode list \<Rightarrow> dfs_state \<Rightarrow> string list \<Rightarrow> bool \<times> dfs_state"
where
  "hasCycle nodes (visited, inStack) nodeId =
     (if nodeId \<in> inStack then (True, (visited, inStack))
      else if nodeId \<in> visited then (False, (visited, inStack))
      else (case nodeMap nodes nodeId of
              None \<Rightarrow> (False, (insert nodeId visited, insert nodeId inStack - {nodeId}))
            | Some node \<Rightarrow>
                (let r = hasCycleDeps nodes (insert nodeId visited, insert nodeId inStack)
                           (dependencies node)
                 in if fst r then (True, snd r)
                    else (False, (fst (snd r), snd (snd r) - {nodeId})))))"
| "hasCycleDeps nodes st [] = (False, st)"
| "hasCycleDeps nodes st (dep # deps) =
     (let r = hasCycle nodes st dep
      in if fst r then (True, snd r) else hasCycleDeps nodes (snd r) deps)"
  by pat_completeness auto

lemma visited_grows:
  "hasCycle_hasCycleDeps_dom (Inl (nodes, st, x)) \<Longrightarrow> fst st \<subseteq> fst (snd (hasCycle nodes st x))"
  "hasCycle_hasCycleDeps_dom (Inr (nodes, st, ds)) \<Longrightarrow> fst st \<subseteq> fst (snd (hasCycleDeps nodes st ds))"
proof (induct rule: hasCycle_hasCycleDeps.pinduct)
  case (1 nodes visited inStack nodeId)
  then show ?case
    by (auto simp: hasCycle.psimps Let_def split: option.splits)
next
  case (2 nodes st)
  then show ?case by (simp add: hasCycleDeps.psimps)
next
  case (3 nodes st dep deps)
  then show ?case
    by (auto simp: hasCycleDeps.psimps Let_def)
qed

lemma finite_dom_nodeMap: "finite (dom (nodeMap nodes))"
  by (simp add: nodeMap_def finite_dom_map_of)

lemma card_diff_insert_less:
  "finite A \<Longrightarrow> x \<in> A \<Longrightarrow> x \<notin> V \<Longrightarrow> card (A - insert x V) < card (A - V)"
  by (rule psubset_card_mono) auto

lemma card_diff_mono:
  "finite A \<Longrightarrow> V \<subseteq> V' \<Longrightarrow> card (A - V') \<le> card (A - V)"
  by (rule card_mono) auto

termination hasCycle
proof (relation "measures
      [\<lambda>a. case a of
          Inl (nodes, st, x) \<Rightarrow> card (dom (nodeMap nodes) - fst st)
        | Inr (nodes, st, ds) \<Rightarrow> card (dom (nodeMap nodes) - fst st),
       \<lambda>a. case a of Inl _ \<Rightarrow> 0 | Inr (nodes, st, ds) \<Rightarrow> Suc (length ds)]", goal_cases)
  case 1
  then show ?case by simp
next
  case (2 nodes visited inStack nodeId node)
  then have "nodeId \<in> dom (nodeMap nodes)" by auto
  with 2 have "card (dom (nodeMap nodes) - insert nodeId visited)
      < card (dom (nodeMap nodes) - visited)"
    by (intro card_diff_insert_less finite_dom_nodeMap)
  then show ?case by simp
next
  case (3 nodes st dep deps)
  then show ?case by simp
next
  case (4 nodes st dep deps r)
  then have "fst st \<subseteq> fst (snd r)" using visited_grows(1) by blast
  then have "card (dom (nodeMap nodes) - fst (snd r)) \<le> card (dom (nodeMap nodes) - fst st)"
    by (simp add: card_diff_mono finite_dom_nodeMap)
  then show ?case by auto
qed


declare hasCycle.simps [simp del]

text \<open>The loop of \<open>validateNoCycles\<close> over the nodes throws at the first node for which
  \<open>hasCycle\<close> answers true.\<close>

fun validateLoop :: "RotationNode list \<Rightarrow> dfs_state \<Rightarrow> RotationNode list \<Rightarrow> error + unit" where
  "validateLoop nodes st [] = Inr ()"
| "validateLoop nodes st (node # rest) =
     (let r = hasCycle nodes st (node_id node)
      in if fst r then Inl (DependencyCycle (node_id node)) else validateLoop nodes (snd r) rest)"

definition validateNoCycles :: "RotationNode list \<Rightarrow> error + unit" where
  "validateNoCycles nodes = validateLoop nodes ({}, {}) nodes"

text \<open>
  \<open>buildPlan\<close> of a \<open>RotationOptimizer\<close> holding \<open>adapter\<close>. The result is paired with the
  number of calls it has made to \<open>adapter.solve\<close>.
\<close>

definition buildPlan ::
  "RotationOptimizerAdapter \<Rightarrow> RotationNode list \<Rightarrow> RotationConstraints
     \<Rightarrow> (error + RotationPlan) \<times> nat" where
  "buildPlan adapter nodes cons =
     (case find (\<lambda>node. \<not> isValidRotationNode node) nodes of
        Some node \<Rightarrow> (Inl (InvalidRotationNode (node_id node)), 0)
      | None \<Rightarrow>
          if \<not> isValidConstraints cons then (Inl InvalidRotationConstraints, 0)
          else (case validateNoCycles nodes of
                  Inl e \<Rightarrow> (Inl e, 0)
                | Inr u \<Rightarrow> (solve adapter nodes cons, 1)))"

text \<open>
  The dependency graph the planner reads: an edge from an identifier to each dependency
  of the node the map holds for it. A dependency cycle is a non-empty path from an
  identifier back to itself.
\<close>

definition depEdges :: "RotationNode list \<Rightarrow> (string \<times> string) set" where
  "depEdges nodes = {(x, y). \<exists>n. nodeMap nodes x = Some n \<and> y \<in> set (dependencies n)}"

definition hasDependencyCycle :: "RotationNode list \<Rightarrow> bool" where
  "hasDependencyCycle nodes = (\<exists>x. (x, x) \<in> (depEdges nodes)\<^sup>+)"

text \<open>The invariant of the traversal: the nodes visited and no longer on the stack are
  closed under the edges and lie on no cycle.\<close>

definition finished :: "dfs_state \<Rightarrow> string set" where
  "finished st = fst st - snd st"

definition dfs_inv :: "RotationNode list \<Rightarrow> dfs_state \<Rightarrow> bool" where
  "dfs_inv nodes st =
     (snd st \<subseteq> fst st
      \<and> (\<forall>y z. y \<in> finished st \<longrightarrow> (y, z) \<in> depEdges nodes \<longrightarrow> z \<in> finished st)
      \<and> (\<forall>y. y \<in> finished st \<longrightarrow> (y, y) \<notin> (depEdges nodes)\<^sup>+))"

section \<open>Sample inputs\<close>

text \<open>A JavaScript environment that knows the few numerals the samples use, as the
  built-ins read, print and add them (to the digits shown), and answers \<open>NaN\<close>
  otherwise.\<close>

definition js0 :: jsenv where
  "js0 = \<lparr> parseFloat = (\<lambda>s. if s = ''0.00001'' then JNum (1 / 100000)
                             else if s = ''0.000020'' then JNum (2 / 100000)
                             else if s = ''0.000030'' then JNum (3 / 100000)
                             else if s = ''0.000001'' then JNum (1 / 1000000)
                             else if s = ''1'' then JNum 1
                             else if s = ''20'' then JNum 20
                             else if s = ''50'' then JNum 50
                             else if s = ''100'' then JNum 100
                             else if s = ''1000'' then JNum 1000
                             else if s = ''100000'' then JNum 100000
                             else JNaN),
           toFixed6 = (\<lambda>n. if n = JNum (2 / 100000) then ''0.000020''
                           else if n = JNum (3 / 100000) then ''0.000030''
                           else ''NaN''),
           numToString = (\<lambda>n. if n = JNum 50 then ''50''
                              else if n = JNum 100 then ''100''
                              else if n = JNum 100000 then ''100000''
                              else if n = JNum (12000001 / 100000) then ''120.00001''
                              else if n = JNum (1 / 100000) then ''0.00001''
                              else ''NaN''),
           numAdd = (\<lambda>a b. if a = JNum 100 \<and> b = JNum (1 / 100000)
                              then JNum (10000001 / 100000)
                            else if a = JNum (10000001 / 100000) \<and> b = JNum 20
                              then JNum (12000001 / 100000)
                            else JNaN) \<rparr>"

definition env0 :: PaymentIntentEnvelope where
  "env0 = \<lparr> intentId = ''3f2b8c1e-0000-4000-8000-000000000001'',
            action = ''send'',
            amount = \<lparr> amt_value = ''100'', currency = ''XRP'' \<rparr>,
            destination = ''rDest'',
            constraints = \<lparr> maxSlippage = JNum (1 / 100), maxFee = ''1'', expiry = 1700000300 \<rparr>,
            riskBounds = \<lparr> maxVolatility = JNum (1 / 10), complianceFlags = [] \<rparr>,
            allowedRoutes = [],
            requiredProofs = [],
            explanation = ''Pay the supplier invoice'' \<rparr>"

definition ledger0 :: LedgerState where
  "ledger0 = \<lparr> networkFee = ''0.00001'', lastLedgerIndex = 1, reserves = [] \<rparr>"

definition clk0 :: clock where
  "clk0 = (\<lambda>i. 1700000000000)"

definition envBlocked :: PaymentIntentEnvelope where
  "envBlocked = env0 \<lparr> allowedRoutes := [''multi-hop''] \<rparr>"

definition routeDirect0 :: Route where
  "routeDirect0 = \<lparr> routeId = ''route-direct-1700000000000'',
                    route_type = ''direct'',
                    route_path = [''rDest''],
                    estimatedFee = ''0.00001'',
                    estimatedTime = JNum 4,
                    confidence = JNum (99 / 100) \<rparr>"

definition cr0 :: ComputeResult where
  "cr0 = \<lparr> computeId = ''compute-1700000000000'',
           cr_timestamp = 1700000000000,
           cr_envelope = env0,
           selectedRoute = routeDirect0,
           alternativeRoutes = [],
           computeTimeMs = 0 \<rparr>"

definition envTight :: PaymentIntentEnvelope where
  "envTight = env0 \<lparr> constraints := (constraints env0) \<lparr> maxFee := ''0.000001'' \<rparr> \<rparr>"

definition envAtExpiry :: PaymentIntentEnvelope where
  "envAtExpiry = env0 \<lparr> constraints := (constraints env0) \<lparr> expiry := 1700000000 \<rparr> \<rparr>"

definition crAtExpiry :: ComputeResult where
  "crAtExpiry = cr0 \<lparr> cr_envelope := envAtExpiry \<rparr>"

definition envIlpOnly :: PaymentIntentEnvelope where
  "envIlpOnly = env0 \<lparr> allowedRoutes := [''ilp''] \<rparr>"

definition envReworded :: PaymentIntentEnvelope where
  "envReworded = env0 \<lparr> intentId := ''3f2b8c1e-0000-4000-8000-000000000002'',
                        explanation := ''Settle the supplier invoice'' \<rparr>"

definition clkLater :: clock where
  "clkLater = (\<lambda>i. 1700000005000 + int i)"

definition stringify0 :: "PaymentIntentEnvelope \<Rightarrow> 16 word list" where
  "stringify0 e = map (\<lambda>c. of_nat (of_char c)) (destination e)"

definition attestation0 :: AttestationRecord where
  "attestation0 = createAttestation stringify0 clk0 env0 ''priv-1'' ''pub-1''"

definition attestResult0 :: AttestResult where
  "attestResult0 = \<lparr> attestId = ''attest-1700000000000'',
                     at_timestamp = 1700000000000,
                     at_envelope = env0,
                     computeResult = cr0,
                     validationResult = \<lparr> isValid = True, errors = [], warnings = [],
                                           vr_attestation = None \<rparr>,
                     attestation = attestation0,
                     attestationChain = [attestation0] \<rparr>"

definition testConfig :: RouteConfig where
  "testConfig = \<lparr> ledgerType = ''test'', nodeUrl = ''http://localhost:6006'',
                  timeout = 30000, retryCount = 0 \<rparr>"

definition ce0 :: cryptoenv where
  "ce0 = \<lparr> randomUUID = ''7d444840-9dc0-41e1-8f4b-8b4b3a7d1a11'',
           sha3_256 = (\<lambda>bs. [0xA7, 0xFF]),
           sha256_hex = (\<lambda>s. ''00'') \<rparr>"

definition input0 :: AttestInput where
  "input0 = \<lparr> ai_envelope = env0, envelopeCanonicalBytes = [1, 2, 3], ai_keyEpoch = 1 \<rparr>"

definition attNoPqc :: CarAttestation where
  "attNoPqc = (ao_attestation (ecdsaDilithiumAttest ce0 (\<lambda>a. ''{}'') clk0 input0)) \<lparr> pqcSig := None \<rparr>"

definition nodeA :: RotationNode where
  "nodeA = \<lparr> node_id = ''A'', tier = CRITICAL, windowStartUtc = ''2026-01-01T00:00:00Z'',
             windowEndUtc = ''2026-01-01T01:00:00Z'', maxDowntimeMinutes = 5,
             dependencies = [''B''] \<rparr>"

definition nodeB :: RotationNode where
  "nodeB = \<lparr> node_id = ''B'', tier = HIGH, windowStartUtc = ''2026-01-02T00:00:00Z'',
             windowEndUtc = ''2026-01-02T01:00:00Z'', maxDowntimeMinutes = 5,
             dependencies = [''C''] \<rparr>"

definition nodeC :: RotationNode where
  "nodeC = \<lparr> node_id = ''C'', tier = LOW, windowStartUtc = ''2026-01-03T00:00:00Z'',
             windowEndUtc = ''2026-01-03T01:00:00Z'', maxDowntimeMinutes = 5,
             dependencies = [''A''] \<rparr>"

definition cycleABC :: "RotationNode list" where
  "cycleABC = [nodeA, nodeB, nodeC]"

definition chainAB :: "RotationNode list" where
  "chainAB = [nodeA, nodeB \<lparr> dependencies := [] \<rparr>]"

definition rotationOk :: RotationConstraints where
  "rotationOk = \<lparr> maxConcurrent = 5, maxTotalDowntimeMinutes = 60, epochTarget = 2 \<rparr>"

definition rotationNoSlot :: RotationConstraints where
  "rotationNoSlot = \<lparr> maxConcurrent = 0, maxTotalDowntimeMinutes = 60, epochTarget = 2 \<rparr>"

definition localeCompare0 :: "string \<Rightarrow> string \<Rightarrow> int" where
  "localeCompare0 a b =
     (if a = b then 0
      else if lexordp (\<lambda>x y. (of_char x :: nat) < of_char y) a b then - 1 else 1)"

definition crProofs :: ComputeResult where
  "crProofs = cr0 \<lparr> cr_envelope := env0 \<lparr> requiredProofs := [''pqc_attestation:v1''] \<rparr> \<rparr>"

text \<open>An environment for a fee too small to change the sum: \<open>100 + 1e-15\<close> rounds to
  \<open>100\<close>, as the machine's addition does.\<close>

definition jsTiny :: jsenv where
  "jsTiny = \<lparr> parseFloat = (\<lambda>s. if s = ''0.000000000000001'' then JNum (1 / 1000000000000000)
                                else if s = ''1'' then JNum 1
                                else if s = ''20'' then JNum 20
                                else if s = ''100'' then JNum 100
                                else if s = ''120'' then JNum 120
                                else if s = ''100000'' then JNum 100000
                                else JNaN),
              toFixed6 = (\<lambda>n. ''NaN''),
              numToString = (\<lambda>n. ''NaN''),
              numAdd = (\<lambda>a b. if a = JNum 100 \<and> b = JNum (1 / 1000000000000000)
                                 then JNum 100
                               else if a = JNum 100 \<and> b = JNum 20 then JNum 120
                               else JNaN) \<rparr>"

definition crTiny :: ComputeResult where
  "crTiny = cr0 \<lparr> selectedRoute := routeDirect0 \<lparr> estimatedFee := ''0.000000000000001'' \<rparr> \<rparr>"

section \<open>Route computation: candidates and the no-route failure\<close>

lemma ilp_in_candidates:
  "\<exists>r \<in> set (getCandidateRoutes js clk envelope ledgerState). route_type r = ''ilp''"
  by (simp add: getCandidateRoutes_def)

lemma candidates_nonempty: "getCandidateRoutes js clk envelope ledgerState \<noteq> []"
  by (simp add: getCandidateRoutes_def)

lemma selectOptimalRoute_fails_iff:
  "(selectOptimalRoute js routes envelope = Inl e) = (routes = [] \<and> e = NoValidRoutes)"
  by (auto simp: selectOptimalRoute_def Let_def)

lemma compute_fails_as_select:
  "(compute js clk envelope ledgerState = Inl e) =
     (selectOptimalRoute js
        (filterByAllowedRoutes (getCandidateRoutes js (\<lambda>i. clk (i + 1)) envelope ledgerState)
           (allowedRoutes envelope)) envelope = Inl e)"
  unfolding compute_def Let_def by (simp split: sum.split)

lemma compute_fails_iff:
  "(compute js clk envelope ledgerState = Inl e) =
     (e = NoValidRoutes \<and>
      filterByAllowedRoutes (getCandidateRoutes js (\<lambda>i. clk (i + 1)) envelope ledgerState)
        (allowedRoutes envelope) = [])"
  unfolding compute_fails_as_select selectOptimalRoute_fails_iff by blast

lemma filter_empty_iff:
  "(filterByAllowedRoutes routes allowed = []) =
     (if allowed = [] then routes = []
      else \<forall>r \<in> set routes. route_type r \<notin> set allowed \<and> ''*'' \<notin> set allowed)"
  by (auto simp: filterByAllowedRoutes_def filter_empty_conv)

text \<open>
  C10. The unfiltered candidate list always contains an ILP route, so it is never empty;
  and \<open>compute\<close> fails (with the "No valid routes available" error, its only failure)
  only when the allowed-routes list of the envelope is non-empty and names the type of no
  candidate (nor the wildcard).
\<close>

theorem candidates_have_ilp_and_no_route_only_by_allow_list:
  "(\<exists>r \<in> set (getCandidateRoutes js clk envelope ledgerState). route_type r = ''ilp'')
   \<and> getCandidateRoutes js clk envelope ledgerState \<noteq> []
   \<and> (compute js clk envelope ledgerState = Inl e \<longrightarrow>
        e = NoValidRoutes
        \<and> allowedRoutes envelope \<noteq> []
        \<and> (\<forall>r \<in> set (getCandidateRoutes js (\<lambda>i. clk (i + 1)) envelope ledgerState).
              route_type r \<notin> set (allowedRoutes envelope))
        \<and> ''*'' \<notin> set (allowedRoutes envelope))"
proof (intro conjI impI)
  show "\<exists>r \<in> set (getCandidateRoutes js clk envelope ledgerState). route_type r = ''ilp''"
    by (rule ilp_in_candidates)
  show "getCandidateRoutes js clk envelope ledgerState \<noteq> []"
    by (rule candidates_nonempty)
next
  let ?cs = "getCandidateRoutes js (\<lambda>i. clk (i + 1)) envelope ledgerState"
  assume fails: "compute js clk envelope ledgerState = Inl e"
  then have e: "e = NoValidRoutes"
    and empty: "filterByAllowedRoutes ?cs (allowedRoutes envelope) = []"
    by (simp_all add: compute_fails_iff)
  have ne: "?cs \<noteq> []" by (rule candidates_nonempty)
  from empty ne have allowed: "allowedRoutes envelope \<noteq> []"
    by (auto simp: filter_empty_iff split: if_splits)
  from empty allowed have excl:
    "\<forall>r \<in> set ?cs. route_type r \<notin> set (allowedRoutes envelope) \<and> ''*'' \<notin> set (allowedRoutes envelope)"
    by (simp add: filter_empty_iff)
  show "e = NoValidRoutes" by (rule e)
  show "allowedRoutes envelope \<noteq> []" by (rule allowed)
  show "\<forall>r \<in> set ?cs. route_type r \<notin> set (allowedRoutes envelope)"
    using excl by blast
  from ne obtain r where "r \<in> set ?cs" by (cases ?cs) auto
  with excl show "''*'' \<notin> set (allowedRoutes envelope)" by blast
qed

lemma compute_envBlocked: "compute js0 clk0 envBlocked ledger0 = Inl NoValidRoutes"
  by (simp add: compute_def getCandidateRoutes_def filterByAllowedRoutes_def
      selectOptimalRoute_def envBlocked_def env0_def)

theorem candidates_have_ilp_and_no_route_only_by_allow_list_witness:
  "compute js0 clk0 envBlocked ledger0 = Inl NoValidRoutes
   \<and> allowedRoutes envBlocked \<noteq> []
   \<and> ''*'' \<notin> set (allowedRoutes envBlocked)
   \<and> list_all (\<lambda>r. route_type r \<notin> set (allowedRoutes envBlocked))
         (getCandidateRoutes js0 (\<lambda>i. clk0 (i + 1)) envBlocked ledger0)"
  using candidates_have_ilp_and_no_route_only_by_allow_list
          [of js0 clk0 envBlocked ledger0 NoValidRoutes] compute_envBlocked
  unfolding list_all_iff by blast

section \<open>The validator reports every failing rule\<close>

lemma validate_errors:
  "errors (validate js clk cr ls sb cfg) = map snd (filter fst (ruleChecks js clk cr sb cfg))"
  by (simp add: validate_def ruleChecks_def Let_def rule1_fails_def rule1_msg_def
      rule2_fails_def rule2_msg_def required_balance_def rule3_fails_def rule3_msg_def
      rule4_fails_def rule4_msg_def rule5_fails_def rule5_msg_def)

lemma validate_isValid:
  "isValid (validate js clk cr ls sb cfg) = (errors (validate js clk cr ls sb cfg) = [])"
  by (simp add: validate_def Let_def)

lemma validate_warnings:
  "warnings (validate js clk cr ls sb cfg) = map snd (filter fst (warnChecks js cr))"
  by (simp add: validate_def warnChecks_def Let_def rule6_warns_def rule7_warns_def
      rule7_msg_def)

lemma single_failure:
  "i < length rc \<Longrightarrow> fst (rc ! i) \<Longrightarrow> \<forall>j < length rc. j \<noteq> i \<longrightarrow> \<not> fst (rc ! j)
   \<Longrightarrow> map snd (filter fst rc) = [snd (rc ! i)]"
proof (induction rc arbitrary: i)
  case Nil
  then show ?case by simp
next
  case (Cons c rc)
  show ?case
  proof (cases i)
    case 0
    have "\<forall>j < length rc. \<not> fst (rc ! j)"
    proof (intro allI impI)
      fix j assume "j < length rc"
      with Cons.prems(3) 0 have "\<not> fst ((c # rc) ! Suc j)" by auto
      then show "\<not> fst (rc ! j)" by simp
    qed
    then have "filter fst rc = []"
      by (fastforce simp: filter_empty_conv in_set_conv_nth)
    with Cons.prems(2) 0 show ?thesis by simp
  next
    case (Suc k)
    from Cons.prems(3) Suc have c: "\<not> fst c" by force
    have k: "k < length rc" "fst (rc ! k)" using Cons.prems(1,2) Suc by auto
    have "\<forall>j < length rc. j \<noteq> k \<longrightarrow> \<not> fst (rc ! j)"
    proof (intro allI impI)
      fix j assume "j < length rc" "j \<noteq> k"
      with Cons.prems(3) Suc have "\<not> fst ((c # rc) ! Suc j)" by auto
      then show "\<not> fst (rc ! j)" by simp
    qed
    from Cons.IH [OF k this] c Suc show ?thesis by simp
  qed
qed

text \<open>
  C6. The error list of \<open>validate\<close> is the list of the messages of all failing error
  rules (rules 1 to 5), in rule order: every rule is evaluated whatever the others gave,
  and whatever the machine's addition makes of the required balance in rule 2.
  So when exactly one rule fails, the error list is that rule's message alone. The
  outcome is valid if and only if the error list is empty. The warning rules (6 and 7)
  are evaluated in the same way and only fill the warning list, which takes no part in
  validity: an input on which no error rule fails is valid whatever warnings it collects.
\<close>

theorem validate_reports_exactly_the_failing_rules:
  "errors (validate js clk cr ls sb cfg) = map snd (filter fst (ruleChecks js clk cr sb cfg))
   \<and> (\<forall>i < 5. fst (ruleChecks js clk cr sb cfg ! i)
          \<and> (\<forall>j < 5. j \<noteq> i \<longrightarrow> \<not> fst (ruleChecks js clk cr sb cfg ! j))
        \<longrightarrow> errors (validate js clk cr ls sb cfg) = [snd (ruleChecks js clk cr sb cfg ! i)])
   \<and> isValid (validate js clk cr ls sb cfg) = (errors (validate js clk cr ls sb cfg) = [])
   \<and> ((\<forall>c \<in> set (ruleChecks js clk cr sb cfg). \<not> fst c)
        \<longrightarrow> isValid (validate js clk cr ls sb cfg))
   \<and> warnings (validate js clk cr ls sb cfg) = map snd (filter fst (warnChecks js cr))"
proof (intro conjI allI impI)
  show "errors (validate js clk cr ls sb cfg) = map snd (filter fst (ruleChecks js clk cr sb cfg))"
    by (rule validate_errors)
  show "warnings (validate js clk cr ls sb cfg) = map snd (filter fst (warnChecks js cr))"
    by (rule validate_warnings)
  show "isValid (validate js clk cr ls sb cfg) = (errors (validate js clk cr ls sb cfg) = [])"
    by (rule validate_isValid)
next
  fix i
  assume i: "i < 5"
    and one: "fst (ruleChecks js clk cr sb cfg ! i)
       \<and> (\<forall>j < 5. j \<noteq> i \<longrightarrow> \<not> fst (ruleChecks js clk cr sb cfg ! j))"
  have len: "length (ruleChecks js clk cr sb cfg) = 5" by (simp add: ruleChecks_def)
  from single_failure [of i "ruleChecks js clk cr sb cfg"] i one len
  show "errors (validate js clk cr ls sb cfg) = [snd (ruleChecks js clk cr sb cfg ! i)]"
    by (simp add: validate_errors)
next
  assume "\<forall>c \<in> set (ruleChecks js clk cr sb cfg). \<not> fst c"
  then have "filter fst (ruleChecks js clk cr sb cfg) = []"
    by (simp add: filter_empty_conv)
  then show "isValid (validate js clk cr ls sb cfg)"
    by (simp add: validate_isValid validate_errors)
qed

lemma all_less_5: "(\<forall>j<(5::nat). P j) = (P 0 \<and> P 1 \<and> P 2 \<and> P 3 \<and> P 4)"
proof -
  have s: "{..<(5::nat)} = {0, 1, 2, 3, 4}" by auto
  have "(\<forall>j<(5::nat). P j) = (\<forall>j\<in>{..<(5::nat)}. P j)" by auto
  also have "\<dots> = (\<forall>j\<in>{0, 1, 2, 3, 4}. P j)" unfolding s ..
  also have "\<dots> = (P 0 \<and> P 1 \<and> P 2 \<and> P 3 \<and> P 4)" by simp
  finally show ?thesis .
qed

lemma rc_50:
  "ruleChecks js0 clk0 cr0 ''50'' DEFAULT_CONFIG =
     [(False, rule1_msg js0 cr0 DEFAULT_CONFIG),
      (True, rule2_msg js0 cr0 ''50'' DEFAULT_CONFIG),
      (False, rule3_msg cr0),
      (False, rule4_msg js0 cr0),
      (False, rule5_msg clk0 cr0)]"
  by (simp add: ruleChecks_def rule1_fails_def rule2_fails_def rule3_fails_def rule4_fails_def
      rule5_fails_def required_balance_def js0_def cr0_def env0_def routeDirect0_def
      DEFAULT_CONFIG_def clk0_def js_gt_def)

lemma rc_1000:
  "ruleChecks js0 clk0 crProofs ''1000'' DEFAULT_CONFIG =
     [(False, rule1_msg js0 crProofs DEFAULT_CONFIG),
      (False, rule2_msg js0 crProofs ''1000'' DEFAULT_CONFIG),
      (False, rule3_msg crProofs),
      (False, rule4_msg js0 crProofs),
      (False, rule5_msg clk0 crProofs)]"
  by (simp add: ruleChecks_def rule1_fails_def rule2_fails_def rule3_fails_def rule4_fails_def
      rule5_fails_def required_balance_def js0_def crProofs_def cr0_def env0_def
      routeDirect0_def DEFAULT_CONFIG_def clk0_def js_gt_def)

lemma wc_1000:
  "warnChecks js0 crProofs =
     [(True, ''Proof verification not yet implemented''), (False, rule7_msg js0 crProofs)]"
  by (simp add: warnChecks_def rule6_warns_def rule7_warns_def crProofs_def cr0_def env0_def
      routeDirect0_def)

theorem validate_reports_exactly_the_failing_rules_witness:
  "fst (ruleChecks js0 clk0 cr0 ''50'' DEFAULT_CONFIG ! 1)
   \<and> errors (validate js0 clk0 cr0 ledger0 ''50'' DEFAULT_CONFIG)
       = [snd (ruleChecks js0 clk0 cr0 ''50'' DEFAULT_CONFIG ! 1)]
   \<and> \<not> isValid (validate js0 clk0 cr0 ledger0 ''50'' DEFAULT_CONFIG)
   \<and> isValid (validate js0 clk0 crProofs ledger0 ''1000'' DEFAULT_CONFIG)
   \<and> warnings (validate js0 clk0 crProofs ledger0 ''1000'' DEFAULT_CONFIG)
       = [''Proof verification not yet implemented'']"
proof -
  note t50 = validate_reports_exactly_the_failing_rules
      [of js0 clk0 cr0 ledger0 "''50''" DEFAULT_CONFIG]
  note t1000 = validate_reports_exactly_the_failing_rules
      [of js0 clk0 crProofs ledger0 "''1000''" DEFAULT_CONFIG]
  have one: "fst (ruleChecks js0 clk0 cr0 ''50'' DEFAULT_CONFIG ! 1)
      \<and> (\<forall>j<5. j \<noteq> 1 \<longrightarrow> \<not> fst (ruleChecks js0 clk0 cr0 ''50'' DEFAULT_CONFIG ! j))"
    by (simp add: rc_50 all_less_5)
  have e50: "errors (validate js0 clk0 cr0 ledger0 ''50'' DEFAULT_CONFIG)
       = [snd (ruleChecks js0 clk0 cr0 ''50'' DEFAULT_CONFIG ! 1)]"
  proof -
    have lt: "(1::nat) < 5" by simp
    from t50 [THEN conjunct2, THEN conjunct1, rule_format, OF lt one] show ?thesis .
  qed
  have v50: "\<not> isValid (validate js0 clk0 cr0 ledger0 ''50'' DEFAULT_CONFIG)"
    using t50 e50 by simp
  have none: "\<forall>c \<in> set (ruleChecks js0 clk0 crProofs ''1000'' DEFAULT_CONFIG). \<not> fst c"
    by (simp add: rc_1000)
  have v1000: "isValid (validate js0 clk0 crProofs ledger0 ''1000'' DEFAULT_CONFIG)"
    using t1000 none by blast
  have w1000: "warnings (validate js0 clk0 crProofs ledger0 ''1000'' DEFAULT_CONFIG)
       = [''Proof verification not yet implemented'']"
    using t1000 by (simp add: wc_1000)
  from one e50 v50 v1000 w1000 show ?thesis by blast
qed


text \<open>The required balance is the machine's sum: with a fee that the addition rounds
  away, a balance of exactly amount plus reserve passes rule 2.\<close>

lemma rc_tiny:
  "ruleChecks jsTiny clk0 crTiny ''120'' DEFAULT_CONFIG =
     [(False, rule1_msg jsTiny crTiny DEFAULT_CONFIG),
      (False, rule2_msg jsTiny crTiny ''120'' DEFAULT_CONFIG),
      (False, rule3_msg crTiny),
      (False, rule4_msg jsTiny crTiny),
      (False, rule5_msg clk0 crTiny)]"
  by (simp add: ruleChecks_def rule1_fails_def rule2_fails_def rule3_fails_def rule4_fails_def
      rule5_fails_def required_balance_def jsTiny_def crTiny_def cr0_def env0_def
      routeDirect0_def DEFAULT_CONFIG_def clk0_def js_gt_def)

lemma rounded_sum_passes:
  "errors (validate jsTiny clk0 crTiny ledger0 ''120'' DEFAULT_CONFIG) = []
   \<and> isValid (validate jsTiny clk0 crTiny ledger0 ''120'' DEFAULT_CONFIG)"
  unfolding validate_isValid validate_errors rc_tiny by simp
section \<open>Expiry at the boundary\<close>

lemma validate_expiry_inclusive:
  "clk 0 div 1000 = expiry (constraints (cr_envelope cr))
   \<Longrightarrow> rule5_msg clk cr \<in> set (errors (validate js clk cr ls sb cfg))
       \<and> \<not> isValid (validate js clk cr ls sb cfg)"
  by (simp add: validate_def Let_def rule5_msg_def)

lemma rc_at_expiry:
  "ruleChecks js0 clk0 crAtExpiry ''1000'' DEFAULT_CONFIG =
     [(False, rule1_msg js0 crAtExpiry DEFAULT_CONFIG),
      (False, rule2_msg js0 crAtExpiry ''1000'' DEFAULT_CONFIG),
      (False, rule3_msg crAtExpiry),
      (False, rule4_msg js0 crAtExpiry),
      (True, rule5_msg clk0 crAtExpiry)]"
  by (simp add: ruleChecks_def rule1_fails_def rule2_fails_def rule3_fails_def rule4_fails_def
      rule5_fails_def required_balance_def js0_def crAtExpiry_def envAtExpiry_def cr0_def
      env0_def routeDirect0_def DEFAULT_CONFIG_def clk0_def js_gt_def)

text \<open>
  C7. At the instant the expiry is reached (expiry 1700000000 seconds, clock
  1700000000000 milliseconds) the CAR validator reports the envelope as expired and
  \<open>preValidate\<close> refuses it, but the PIE-layer \<open>isExpired\<close> makes a strict comparison
  and answers that it has not expired.
\<close>

theorem isExpired_misses_the_boundary:
  "clk0 0 = expiry (constraints envAtExpiry) * 1000
   \<and> clk0 0 div 1000 = expiry (constraints envAtExpiry)
   \<and> errors (validate js0 clk0 crAtExpiry ledger0 ''1000'' DEFAULT_CONFIG)
       = [rule5_msg clk0 crAtExpiry]
   \<and> preValidate clk0 envAtExpiry ledger0 = (False, Some ''Envelope already expired'')
   \<and> isExpired clk0 envAtExpiry = False"
  unfolding validate_errors rc_at_expiry
  by (simp add: isExpired_def preValidate_def clk0_def envAtExpiry_def env0_def)

section \<open>Selection when no candidate is within the fee bound\<close>

lemma set_sort_insert: "set (sort_insert cmp x ys) = insert x (set ys)"
  by (induction ys) auto

lemma set_js_sort: "set (js_sort cmp xs) = set xs"
  by (induction xs) (simp_all add: js_sort_def set_sort_insert)

lemma js_sort_Nil_iff: "(js_sort cmp xs = []) = (xs = [])"
  using set_js_sort [of cmp xs] by (metis set_empty)

lemma select_fallback:
  assumes "routes \<noteq> []" and "\<forall>r \<in> set routes. \<not> feeWithin js envelope r"
  shows "\<exists>r \<in> set routes. selectOptimalRoute js routes envelope = Inr r"
proof -
  let ?sorted = "js_sort (routeCompare js) routes"
  have ne: "?sorted \<noteq> []" using assms(1) by (simp add: js_sort_Nil_iff)
  have "filter (\<lambda>r. js_le (parseFloat js (estimatedFee r))
            (parseFloat js (maxFee (constraints envelope)))) ?sorted = []"
    using assms(2) by (simp add: filter_empty_conv set_js_sort feeWithin_def)
  then have sel: "selectOptimalRoute js routes envelope = Inr (?sorted ! 0)"
    using assms(1) by (simp add: selectOptimalRoute_def Let_def)
  from ne have "?sorted ! 0 \<in> set ?sorted" by (simp add: nth_mem)
  then have "?sorted ! 0 \<in> set routes" by (simp add: set_js_sort)
  with sel show ?thesis by blast
qed

lemma js_gt_of_not_le: "a \<noteq> JNaN \<Longrightarrow> b \<noteq> JNaN \<Longrightarrow> \<not> js_le a b \<Longrightarrow> js_gt a b"
  by (cases a; cases b) (auto simp: js_gt_def)

lemma validate_fee_rule:
  "rule4_fails js cr \<Longrightarrow>
     rule4_msg js cr \<in> set (errors (validate js clk cr ls sb cfg))
     \<and> \<not> isValid (validate js clk cr ls sb cfg)"
  by (simp add: validate_def Let_def rule4_fails_def rule4_msg_def)

text \<open>
  C2 (as amended). When the filtered candidate set is not empty and no candidate's
  estimated fee is within the envelope's \<open>maxFee\<close>, \<open>compute\<close> still succeeds: it returns
  one of the candidates as the selected route, with nothing in the result that marks the
  violation. The violation is surfaced one stage later: provided both fees parse to
  numbers, \<open>validate\<close> on that result reports the fee rule and is not valid.
\<close>

theorem no_candidate_within_fee_returns_fallback_rejected_downstream:
  assumes "cands = filterByAllowedRoutes
             (getCandidateRoutes js (\<lambda>i. clk (i + 1)) envelope ledgerState) (allowedRoutes envelope)"
    and "cands \<noteq> []"
    and "\<forall>r \<in> set cands. \<not> feeWithin js envelope r"
  shows "\<exists>cr. compute js clk envelope ledgerState = Inr cr
           \<and> selectedRoute cr \<in> set cands
           \<and> cr_envelope cr = envelope
           \<and> \<not> feeWithin js envelope (selectedRoute cr)
           \<and> (parseFloat js (estimatedFee (selectedRoute cr)) \<noteq> JNaN
                \<and> parseFloat js (maxFee (constraints envelope)) \<noteq> JNaN
              \<longrightarrow> (\<forall>clk' sb cfg.
                     rule4_msg js cr \<in> set (errors (validate js clk' cr ledgerState sb cfg))
                     \<and> \<not> isValid (validate js clk' cr ledgerState sb cfg)))"
proof -
  from select_fallback [OF assms(2,3)] obtain r where r: "r \<in> set cands"
    and sel: "selectOptimalRoute js cands envelope = Inr r" by blast
  define cr where "cr = \<lparr> computeId = ''compute-'' @ dec (clk 5),
                   cr_timestamp = clk 6,
                   cr_envelope = envelope,
                   selectedRoute = r,
                   alternativeRoutes = filter (\<lambda>x. routeId x \<noteq> routeId r) cands,
                   computeTimeMs = clk 4 - clk 0 \<rparr>"
  have c: "compute js clk envelope ledgerState = Inr cr"
    using sel unfolding compute_def Let_def assms(1) [symmetric] cr_def by simp
  have nf: "\<not> feeWithin js envelope (selectedRoute cr)"
    using assms(3) r by (simp add: cr_def)
  have down: "\<forall>clk' sb cfg.
        rule4_msg js cr \<in> set (errors (validate js clk' cr ledgerState sb cfg))
        \<and> \<not> isValid (validate js clk' cr ledgerState sb cfg)"
    if "parseFloat js (estimatedFee (selectedRoute cr)) \<noteq> JNaN"
      "parseFloat js (maxFee (constraints envelope)) \<noteq> JNaN"
  proof -
    have "rule4_fails js cr"
      using nf that js_gt_of_not_le unfolding rule4_fails_def feeWithin_def
      by (simp add: cr_def)
    then show ?thesis using validate_fee_rule by blast
  qed
  have "selectedRoute cr \<in> set cands" "cr_envelope cr = envelope"
    using r by (simp_all add: cr_def)
  with c nf down show ?thesis by blast
qed

lemma cands_tight:
  "filterByAllowedRoutes (getCandidateRoutes js0 (\<lambda>i. clk0 (i + 1)) envTight ledger0)
     (allowedRoutes envTight) =
   [\<lparr> routeId = ''route-direct-'' @ dec (clk0 1), route_type = ''direct'',
      route_path = [''rDest''], estimatedFee = ''0.00001'',
      estimatedTime = JNum 4, confidence = JNum (99 / 100) \<rparr>,
    \<lparr> routeId = ''route-ilp-'' @ dec (clk0 3), route_type = ''ilp'',
      route_path = [''ilp-connector'', ''rDest''], estimatedFee = ''0.000030'',
      estimatedTime = JNum 15, confidence = JNum (85 / 100) \<rparr>]"
  by (simp add: getCandidateRoutes_def filterByAllowedRoutes_def envTight_def env0_def
      ledger0_def multiplyFee_def js0_def)

lemma compute_tight:
  "compute js0 clk0 envTight ledger0 =
     Inr \<lparr> computeId = ''compute-'' @ dec (clk0 5),
           cr_timestamp = clk0 6,
           cr_envelope = envTight,
           selectedRoute = \<lparr> routeId = ''route-direct-'' @ dec (clk0 1), route_type = ''direct'',
              route_path = [''rDest''], estimatedFee = ''0.00001'',
              estimatedTime = JNum 4, confidence = JNum (99 / 100) \<rparr>,
           alternativeRoutes = [\<lparr> routeId = ''route-ilp-'' @ dec (clk0 3), route_type = ''ilp'',
              route_path = [''ilp-connector'', ''rDest''], estimatedFee = ''0.000030'',
              estimatedTime = JNum 15, confidence = JNum (85 / 100) \<rparr>],
           computeTimeMs = clk0 4 - clk0 0 \<rparr>"
  unfolding compute_def Let_def cands_tight
  by (simp add: selectOptimalRoute_def js_sort_def routeCompare_def js_gt_def
      envTight_def env0_def js0_def)

text \<open>
  C2 as stated fails: with a network fee of 0.00001 and a \<open>maxFee\<close> of 0.000001 no
  candidate is within the bound, and \<open>compute\<close> returns the direct route as its selection.
\<close>

theorem fee_violating_route_returned_as_success:
  "filterByAllowedRoutes (getCandidateRoutes js0 (\<lambda>i. clk0 (i + 1)) envTight ledger0)
     (allowedRoutes envTight) \<noteq> []
   \<and> filter (feeWithin js0 envTight)
       (filterByAllowedRoutes (getCandidateRoutes js0 (\<lambda>i. clk0 (i + 1)) envTight ledger0)
          (allowedRoutes envTight)) = []
   \<and> \<not> isl (compute js0 clk0 envTight ledger0)
   \<and> route_type (selectedRoute (projr (compute js0 clk0 envTight ledger0))) = ''direct''
   \<and> \<not> feeWithin js0 envTight (selectedRoute (projr (compute js0 clk0 envTight ledger0)))"
  unfolding compute_tight cands_tight
  by (simp add: feeWithin_def envTight_def env0_def js0_def)

theorem no_candidate_within_fee_returns_fallback_rejected_downstream_witness:
  "\<exists>cr. compute js0 clk0 envTight ledger0 = Inr cr
     \<and> \<not> feeWithin js0 envTight (selectedRoute cr)
     \<and> \<not> isValid (validate js0 clk0 cr ledger0 ''1000'' DEFAULT_CONFIG)"
proof -
  let ?cands = "filterByAllowedRoutes
      (getCandidateRoutes js0 (\<lambda>i. clk0 (i + 1)) envTight ledger0) (allowedRoutes envTight)"
  have ne: "?cands \<noteq> []" unfolding cands_tight by simp
  have none: "\<forall>r \<in> set ?cands. \<not> feeWithin js0 envTight r"
    unfolding cands_tight by (simp add: feeWithin_def envTight_def env0_def js0_def)
  from no_candidate_within_fee_returns_fallback_rejected_downstream [OF refl ne none]
  obtain cr where c: "compute js0 clk0 envTight ledger0 = Inr cr"
    and m: "selectedRoute cr \<in> set ?cands"
    and nf: "\<not> feeWithin js0 envTight (selectedRoute cr)"
    and down: "parseFloat js0 (estimatedFee (selectedRoute cr)) \<noteq> JNaN
                \<and> parseFloat js0 (maxFee (constraints envTight)) \<noteq> JNaN
              \<longrightarrow> (\<forall>clk' sb cfg.
                     rule4_msg js0 cr \<in> set (errors (validate js0 clk' cr ledger0 sb cfg))
                     \<and> \<not> isValid (validate js0 clk' cr ledger0 sb cfg))"
    by blast
  from m have "estimatedFee (selectedRoute cr) = ''0.00001''
             \<or> estimatedFee (selectedRoute cr) = ''0.000030''"
    unfolding cands_tight by auto
  then have "parseFloat js0 (estimatedFee (selectedRoute cr)) \<noteq> JNaN"
    by (auto simp: js0_def)
  moreover have "parseFloat js0 (maxFee (constraints envTight)) \<noteq> JNaN"
    by (simp add: envTight_def env0_def js0_def)
  ultimately have "\<not> isValid (validate js0 clk0 cr ledger0 ''1000'' DEFAULT_CONFIG)"
    using down by blast
  with c nf show ?thesis by blast
qed

section \<open>Determinism of route computation\<close>

abbreviation same_content :: "Route \<Rightarrow> Route \<Rightarrow> bool" where
  "same_content a b \<equiv> route_content a = route_content b"

lemma sort_insert_rel:
  assumes "list_all2 R xs ys" and "R x y"
    and "\<And>a b a' b'. R a a' \<Longrightarrow> R b b' \<Longrightarrow> cmp a b = cmp' a' b'"
  shows "list_all2 R (sort_insert cmp x xs) (sort_insert cmp' y ys)"
  using assms(1)
proof (induction rule: list_all2_induct)
  case Nil
  then show ?case using assms(2) by simp
next
  case (Cons a xs b ys)
  have "cmp x a = cmp' y b" using assms(2,3) Cons.hyps(1) by blast
  then show ?case using Cons assms(2) by simp
qed

lemma js_sort_rel:
  assumes "list_all2 R xs ys"
    and "\<And>a b a' b'. R a a' \<Longrightarrow> R b b' \<Longrightarrow> cmp a b = cmp' a' b'"
  shows "list_all2 R (js_sort cmp xs) (js_sort cmp' ys)"
  using assms(1)
proof (induction rule: list_all2_induct)
  case Nil
  then show ?case by (simp add: js_sort_def)
next
  case (Cons a xs b ys)
  then have "list_all2 R (sort_insert cmp a (js_sort cmp xs)) (sort_insert cmp' b (js_sort cmp' ys))"
    using sort_insert_rel [of R _ _ a b cmp cmp'] assms(2) by blast
  then show ?case by (simp add: js_sort_def)
qed

lemma filter_rel:
  assumes "list_all2 R xs ys"
    and "\<And>a b. a \<in> set xs \<Longrightarrow> b \<in> set ys \<Longrightarrow> R a b \<Longrightarrow> P a = Q b"
  shows "list_all2 R (filter P xs) (filter Q ys)"
  using assms
proof (induction rule: list_all2_induct)
  case Nil
  then show ?case by simp
next
  case (Cons a xs b ys)
  have "P a = Q b" using Cons.hyps(1) Cons.prems by simp
  moreover have "list_all2 R (filter P xs) (filter Q ys)"
    using Cons.IH Cons.prems by simp
  ultimately show ?case using Cons.hyps(1) by simp
qed

lemma same_content_map:
  "list_all2 same_content xs ys \<Longrightarrow> map route_content xs = map route_content ys"
  by (induction rule: list_all2_induct) simp_all

lemma routeCompare_content:
  "same_content a a' \<Longrightarrow> same_content b b' \<Longrightarrow> routeCompare js a b = routeCompare js a' b'"
  by (simp add: routeCompare_def route_content_def Let_def)

lemma candidates_content:
  assumes "action e1 = action e2" "amount e1 = amount e2" "destination e1 = destination e2"
  shows "list_all2 same_content (getCandidateRoutes js clk1 e1 ls) (getCandidateRoutes js clk2 e2 ls)"
  using assms by (simp add: getCandidateRoutes_def route_content_def)

lemma candidates_ids:
  "a \<in> set (getCandidateRoutes js clk e ls) \<Longrightarrow> b \<in> set (getCandidateRoutes js clk e ls)
   \<Longrightarrow> (routeId a = routeId b) = (route_type a = route_type b)"
  by (auto simp: getCandidateRoutes_def split: if_splits)

lemma filterByAllowedRoutes_subset: "set (filterByAllowedRoutes rs al) \<subseteq> set rs"
  by (auto simp: filterByAllowedRoutes_def)

lemma filterByAllowedRoutes_rel:
  "list_all2 same_content xs ys
   \<Longrightarrow> list_all2 same_content (filterByAllowedRoutes xs al) (filterByAllowedRoutes ys al)"
  unfolding filterByAllowedRoutes_def
  by (auto intro!: filter_rel simp: route_content_def)

lemma select_rel:
  assumes rel: "list_all2 same_content xs ys"
    and c: "constraints e1 = constraints e2"
  shows "(xs = [] \<and> ys = [] \<and> selectOptimalRoute js xs e1 = Inl NoValidRoutes
            \<and> selectOptimalRoute js ys e2 = Inl NoValidRoutes)
         \<or> (\<exists>r1 r2. selectOptimalRoute js xs e1 = Inr r1 \<and> selectOptimalRoute js ys e2 = Inr r2
              \<and> r1 \<in> set xs \<and> r2 \<in> set ys \<and> same_content r1 r2)"
proof (cases "xs = []")
  case True
  with rel have "ys = []" by simp
  with True show ?thesis by (simp add: selectOptimalRoute_def)
next
  case False
  with rel have ysne: "ys \<noteq> []" by auto
  let ?s1 = "js_sort (routeCompare js) xs" and ?s2 = "js_sort (routeCompare js) ys"
  let ?P1 = "\<lambda>r. js_le (parseFloat js (estimatedFee r)) (parseFloat js (maxFee (constraints e1)))"
  let ?P2 = "\<lambda>r. js_le (parseFloat js (estimatedFee r)) (parseFloat js (maxFee (constraints e2)))"
  have srel: "list_all2 same_content ?s1 ?s2"
    using rel routeCompare_content by (rule js_sort_rel)
  have frel: "list_all2 same_content (filter ?P1 ?s1) (filter ?P2 ?s2)"
    using srel by (rule filter_rel) (simp add: c route_content_def)
  have s1ne: "?s1 \<noteq> []" and s2ne: "?s2 \<noteq> []"
    using False ysne by (simp_all add: js_sort_Nil_iff)
  have hd_rel: "same_content (as ! 0) (bs ! 0) \<and> as ! 0 \<in> set as \<and> bs ! 0 \<in> set bs"
    if "list_all2 same_content as bs" "as \<noteq> []" for as bs
    using that by (cases as; cases bs) auto
  show ?thesis
  proof (cases "filter ?P1 ?s1 = []")
    case True
    with frel have f2: "filter ?P2 ?s2 = []" by simp
    have "selectOptimalRoute js xs e1 = Inr (?s1 ! 0)" "selectOptimalRoute js ys e2 = Inr (?s2 ! 0)"
      using True f2 False ysne by (simp_all add: selectOptimalRoute_def Let_def)
    moreover have "same_content (?s1 ! 0) (?s2 ! 0) \<and> ?s1 ! 0 \<in> set ?s1 \<and> ?s2 ! 0 \<in> set ?s2"
      using hd_rel [OF srel s1ne] .
    ultimately show ?thesis by (auto simp: set_js_sort)
  next
    case nonempty: False
    with frel have f2: "filter ?P2 ?s2 \<noteq> []" by auto
    have "selectOptimalRoute js xs e1 = Inr (filter ?P1 ?s1 ! 0)"
      "selectOptimalRoute js ys e2 = Inr (filter ?P2 ?s2 ! 0)"
      using nonempty f2 False ysne by (simp_all add: selectOptimalRoute_def Let_def)
    moreover have "same_content (filter ?P1 ?s1 ! 0) (filter ?P2 ?s2 ! 0)
        \<and> filter ?P1 ?s1 ! 0 \<in> set (filter ?P1 ?s1) \<and> filter ?P2 ?s2 ! 0 \<in> set (filter ?P2 ?s2)"
      using hd_rel [OF frel nonempty] .
    ultimately show ?thesis by (auto simp: set_js_sort)
  qed
qed

lemma compute_content:
  assumes "action e1 = action e2" "amount e1 = amount e2" "destination e1 = destination e2"
    "constraints e1 = constraints e2" "allowedRoutes e1 = allowedRoutes e2"
  shows "map_sum id selection_content (compute js clk1 e1 ls)
       = map_sum id selection_content (compute js clk2 e2 ls)"
proof -
  let ?c1 = "getCandidateRoutes js (\<lambda>i. clk1 (i + 1)) e1 ls"
  let ?c2 = "getCandidateRoutes js (\<lambda>i. clk2 (i + 1)) e2 ls"
  let ?f1 = "filterByAllowedRoutes ?c1 (allowedRoutes e1)"
  let ?f2 = "filterByAllowedRoutes ?c2 (allowedRoutes e2)"
  have crel: "list_all2 same_content ?c1 ?c2"
    using assms(1-3) by (rule candidates_content)
  have frel: "list_all2 same_content ?f1 ?f2"
    using crel assms(5) by (simp add: filterByAllowedRoutes_rel)
  from select_rel [OF frel assms(4), of js]
  show ?thesis
  proof (elim disjE conjE exE)
    assume "selectOptimalRoute js ?f1 e1 = Inl NoValidRoutes"
      "selectOptimalRoute js ?f2 e2 = Inl NoValidRoutes"
    then show ?thesis by (simp add: compute_def Let_def)
  next
    fix r1 r2
    assume s1: "selectOptimalRoute js ?f1 e1 = Inr r1"
      and s2: "selectOptimalRoute js ?f2 e2 = Inr r2"
      and m1: "r1 \<in> set ?f1" and m2: "r2 \<in> set ?f2" and rc: "same_content r1 r2"
    have "list_all2 same_content (filter (\<lambda>r. routeId r \<noteq> routeId r1) ?f1)
            (filter (\<lambda>r. routeId r \<noteq> routeId r2) ?f2)"
      using frel
    proof (rule filter_rel)
      fix a b
      assume a: "a \<in> set ?f1" and b: "b \<in> set ?f2" and ab: "same_content a b"
      have "(routeId a = routeId r1) = (route_type a = route_type r1)"
        using a m1 filterByAllowedRoutes_subset candidates_ids by blast
      moreover have "(routeId b = routeId r2) = (route_type b = route_type r2)"
        using b m2 filterByAllowedRoutes_subset candidates_ids by blast
      moreover have "route_type a = route_type b" "route_type r1 = route_type r2"
        using ab rc by (simp_all add: route_content_def)
      ultimately show "(routeId a \<noteq> routeId r1) = (routeId b \<noteq> routeId r2)" by simp
    qed
    then have "map route_content (filter (\<lambda>r. routeId r \<noteq> routeId r1) ?f1)
             = map route_content (filter (\<lambda>r. routeId r \<noteq> routeId r2) ?f2)"
      by (rule same_content_map)
    with s1 s2 rc show ?thesis
      by (simp add: compute_def Let_def selection_content_def)
  qed
qed

lemma compute_same_clock:
  assumes "action e1 = action e2" "amount e1 = amount e2" "destination e1 = destination e2"
    "constraints e1 = constraints e2" "allowedRoutes e1 = allowedRoutes e2"
    "clk1 1 = clk2 1" "clk1 2 = clk2 2" "clk1 3 = clk2 3"
  shows "map_sum id selection (compute js clk1 e1 ls) = map_sum id selection (compute js clk2 e2 ls)"
proof -
  have c: "getCandidateRoutes js (\<lambda>i. clk1 (i + 1)) e1 ls
         = getCandidateRoutes js (\<lambda>i. clk2 (i + 1)) e2 ls"
    using assms by (simp add: getCandidateRoutes_def numeral_2_eq_2 numeral_3_eq_3)
  have s: "selectOptimalRoute js rs e1 = selectOptimalRoute js rs e2" for rs
    using assms(4) by (simp add: selectOptimalRoute_def)
  show ?thesis
    unfolding compute_def Let_def c s assms(5)
    by (simp add: selection_def split: sum.split)
qed

text \<open>
  C9 (as amended). Two runs of \<open>compute\<close> on envelopes that agree in action, amount,
  destination, constraints and allowed-routes list, on the same ledger state, either both
  fail or select routes of the same type, path, estimated fee, estimated time and
  confidence, with alternatives that agree in the same way and in the same order. The
  route identifiers embed the clock: when the readings used for them agree, the selected
  route and the alternatives are identical.
\<close>

theorem compute_selection_determined_by_inputs:
  assumes "action e1 = action e2" "amount e1 = amount e2" "destination e1 = destination e2"
    "constraints e1 = constraints e2" "allowedRoutes e1 = allowedRoutes e2"
  shows "map_sum id selection_content (compute js clk1 e1 ls)
           = map_sum id selection_content (compute js clk2 e2 ls)
         \<and> (clk1 1 = clk2 1 \<and> clk1 2 = clk2 2 \<and> clk1 3 = clk2 3
            \<longrightarrow> map_sum id selection (compute js clk1 e1 ls)
                  = map_sum id selection (compute js clk2 e2 ls))"
  using compute_content [OF assms] compute_same_clock [OF assms] by blast

theorem compute_selection_determined_by_inputs_witness:
  "action env0 = action envReworded \<and> amount env0 = amount envReworded
   \<and> destination env0 = destination envReworded \<and> constraints env0 = constraints envReworded
   \<and> allowedRoutes env0 = allowedRoutes envReworded
   \<and> map_sum id selection_content (compute js0 clk0 env0 ledger0)
       = map_sum id selection_content (compute js0 clkLater envReworded ledger0)"
  using compute_selection_determined_by_inputs [of env0 envReworded js0 clk0 ledger0 clkLater]
  by (simp add: envReworded_def)

lemma cands_env0:
  "filterByAllowedRoutes (getCandidateRoutes js0 (\<lambda>i. clk0 (i + 1)) env0 ledger0)
     (allowedRoutes env0) =
   [\<lparr> routeId = ''route-direct-'' @ dec (clk0 1), route_type = ''direct'',
      route_path = [''rDest''], estimatedFee = ''0.00001'',
      estimatedTime = JNum 4, confidence = JNum (99 / 100) \<rparr>,
    \<lparr> routeId = ''route-ilp-'' @ dec (clk0 3), route_type = ''ilp'',
      route_path = [''ilp-connector'', ''rDest''], estimatedFee = ''0.000030'',
      estimatedTime = JNum 15, confidence = JNum (85 / 100) \<rparr>]"
  by (simp add: getCandidateRoutes_def filterByAllowedRoutes_def env0_def
      ledger0_def multiplyFee_def js0_def)

lemma cands_envIlpOnly:
  "filterByAllowedRoutes (getCandidateRoutes js0 (\<lambda>i. clk0 (i + 1)) envIlpOnly ledger0)
     (allowedRoutes envIlpOnly) =
   [\<lparr> routeId = ''route-ilp-'' @ dec (clk0 3), route_type = ''ilp'',
      route_path = [''ilp-connector'', ''rDest''], estimatedFee = ''0.000030'',
      estimatedTime = JNum 15, confidence = JNum (85 / 100) \<rparr>]"
  by (simp add: getCandidateRoutes_def filterByAllowedRoutes_def envIlpOnly_def env0_def
      ledger0_def multiplyFee_def js0_def)

lemma selected_env0:
  "map_sum id (\<lambda>cr. route_type (selectedRoute cr)) (compute js0 clk0 env0 ledger0) = Inr ''direct''"
  unfolding compute_def Let_def cands_env0
  by (simp add: selectOptimalRoute_def js_sort_def routeCompare_def js_gt_def env0_def js0_def)

lemma selected_envIlpOnly:
  "map_sum id (\<lambda>cr. route_type (selectedRoute cr)) (compute js0 clk0 envIlpOnly ledger0) = Inr ''ilp''"
  unfolding compute_def Let_def cands_envIlpOnly
  by (simp add: selectOptimalRoute_def js_sort_def routeCompare_def js_gt_def envIlpOnly_def
      env0_def js0_def)

text \<open>
  C9 as stated fails: two envelopes with the same amount, destination and constraints, on
  the same ledger state and clock, that differ in their allowed-routes list are given
  different routes.
\<close>

theorem same_amount_destination_constraints_different_selection:
  "amount env0 = amount envIlpOnly \<and> destination env0 = destination envIlpOnly
   \<and> constraints env0 = constraints envIlpOnly
   \<and> map_sum id (\<lambda>cr. route_type (selectedRoute cr)) (compute js0 clk0 env0 ledger0)
       = Inr ''direct''
   \<and> map_sum id (\<lambda>cr. route_type (selectedRoute cr)) (compute js0 clk0 envIlpOnly ledger0)
       = Inr ''ilp''"
  unfolding selected_env0 selected_envIlpOnly by (simp add: envIlpOnly_def)

section \<open>Halting and routing\<close>

lemma route_ignores_halt_state: "route st clk rnd ar config = route st' clk rnd ar config"
  by (simp add: route_def)

lemma hash_ab: "hashEnvelope (\<lambda>e. [97, 98]) e = ''hash-c21''"
  by (simp add: hashEnvelope_def hashStep_def digits_of.simps digit_char_def)

text \<open>
  C1. After \<open>haltRouting "incident"\<close> the flag is set, yet \<open>route\<close> on a fresh attestation
  and the test backend calls the backend once and reports a successful submission, the
  same as after \<open>resumeRouting\<close>: the source of \<open>route\<close> never reads the flag.
\<close>

theorem route_dispatches_while_halted:
  "isRoutingHalted (haltRouting ''incident'' initialHaltState) = (True, Some ''incident'')
   \<and> success (submission (fst (route (haltRouting ''incident'' initialHaltState)
         clk0 7 attestResult0 testConfig))) = True
   \<and> sr_error (submission (fst (route (haltRouting ''incident'' initialHaltState)
         clk0 7 attestResult0 testConfig))) = None
   \<and> snd (route (haltRouting ''incident'' initialHaltState) clk0 7 attestResult0 testConfig)
       = [''test'']
   \<and> route (resumeRouting (haltRouting ''incident'' initialHaltState))
         clk0 7 attestResult0 testConfig
       = route (haltRouting ''incident'' initialHaltState) clk0 7 attestResult0 testConfig"
  by (simp add: isRoutingHalted_def haltRouting_def initialHaltState_def route_def
      isAttestationValid_def attestResult0_def attestation0_def createAttestation_def Let_def
      clk0_def testConfig_def submitToTestnet_def)

section \<open>Hashing and verifying an attestation\<close>

text \<open>
  C3 (as amended). \<open>hashEnvelope\<close> is a function of the serialised envelope alone (it
  reads neither the clock nor a key), so hashing twice gives the same string, and the
  hash stored in a fresh attestation is the hash of its envelope. Verification of a fresh
  attestation nevertheless returns false, as it does for every envelope and attestation:
  \<open>verifySignature\<close> is a placeholder that always answers false.
\<close>

theorem fresh_attestation_hash_matches_but_verification_fails:
  "validationHash (createAttestation stringify clk envelope privateKey pubKey)
     = hashEnvelope stringify envelope
   \<and> verifySignature (createAttestation stringify clk envelope privateKey pubKey) pubKey = False
   \<and> verifyAttestation stringify envelope
       (createAttestation stringify clk envelope privateKey pubKey) = False
   \<and> verifyAttestation stringify envelope' att = False"
  by (simp add: verifyAttestation_def verifySignature_def createAttestation_def Let_def)

text \<open>C3 as stated fails: a freshly produced attestation does not verify.\<close>

theorem fresh_attestation_is_not_verified:
  "verifyAttestation stringify0 env0 (createAttestation stringify0 clk0 env0 ''priv-1'' ''pub-1'')
     \<noteq> True"
  by (simp add: verifyAttestation_def verifySignature_def Let_def)

section \<open>Suite selection\<close>

lemma createAttestor_cases:
  "createAttestor policy =
     (if policy = HYBRID_ED25519_PLUS_DILITHIUM then Inr hybridEd25519DilithiumSuite
      else if policy = HYBRID_ECDSA_SECP256K1_PLUS_DILITHIUM then Inr hybridEcdsaDilithiumSuite
      else if policy = CLASSICAL_ONLY \<or> policy = PQC_ONLY_DILITHIUM
      then Inl (NotYetImplemented policy)
      else Inl (UnsupportedCryptoPolicy policy))"
  by (simp add: createAttestor_def HYBRID_ED25519_PLUS_DILITHIUM_def
      HYBRID_ECDSA_SECP256K1_PLUS_DILITHIUM_def CLASSICAL_ONLY_def PQC_ONLY_DILITHIUM_def)

lemma policy_ids_distinct:
  "HYBRID_ED25519_PLUS_DILITHIUM \<noteq> HYBRID_ECDSA_SECP256K1_PLUS_DILITHIUM"
  "CLASSICAL_ONLY \<noteq> HYBRID_ED25519_PLUS_DILITHIUM"
  "CLASSICAL_ONLY \<noteq> HYBRID_ECDSA_SECP256K1_PLUS_DILITHIUM"
  "PQC_ONLY_DILITHIUM \<noteq> HYBRID_ED25519_PLUS_DILITHIUM"
  "PQC_ONLY_DILITHIUM \<noteq> HYBRID_ECDSA_SECP256K1_PLUS_DILITHIUM"
  "CLASSICAL_ONLY \<noteq> PQC_ONLY_DILITHIUM"
  by (simp_all add: HYBRID_ED25519_PLUS_DILITHIUM_def
      HYBRID_ECDSA_SECP256K1_PLUS_DILITHIUM_def CLASSICAL_ONLY_def PQC_ONLY_DILITHIUM_def)

lemma isPolicySupported_iff:
  "isPolicySupported policy =
     (policy = HYBRID_ED25519_PLUS_DILITHIUM \<or> policy = HYBRID_ECDSA_SECP256K1_PLUS_DILITHIUM)"
  by (simp add: isPolicySupported_def getSupportedPolicies_def HYBRID_ED25519_PLUS_DILITHIUM_def
      HYBRID_ECDSA_SECP256K1_PLUS_DILITHIUM_def)

text \<open>
  C4 (as amended). \<open>createAttestor\<close> returns an attestor exactly for the two hybrid
  policies (the ones \<open>isPolicySupported\<close> accepts). For \<open>CLASSICAL_ONLY\<close> and
  \<open>PQC_ONLY_DILITHIUM\<close> it fails with a not-yet-implemented error, and for every
  identifier outside the four it fails with the unsupported-policy error.
\<close>

theorem createAttestor_only_for_hybrid_policies:
  "createAttestor HYBRID_ED25519_PLUS_DILITHIUM = Inr hybridEd25519DilithiumSuite
   \<and> createAttestor HYBRID_ECDSA_SECP256K1_PLUS_DILITHIUM = Inr hybridEcdsaDilithiumSuite
   \<and> createAttestor CLASSICAL_ONLY = Inl (NotYetImplemented CLASSICAL_ONLY)
   \<and> createAttestor PQC_ONLY_DILITHIUM = Inl (NotYetImplemented PQC_ONLY_DILITHIUM)
   \<and> (policy \<notin> set policyIds \<longrightarrow> createAttestor policy = Inl (UnsupportedCryptoPolicy policy))
   \<and> (\<not> isl (createAttestor policy)) =
       (policy = HYBRID_ED25519_PLUS_DILITHIUM \<or> policy = HYBRID_ECDSA_SECP256K1_PLUS_DILITHIUM)
   \<and> isPolicySupported policy = (\<not> isl (createAttestor policy))"
  using policy_ids_distinct
  by (simp add: createAttestor_cases isPolicySupported_iff policyIds_def)

theorem createAttestor_only_for_hybrid_policies_witness:
  "''ROT13'' \<notin> set policyIds
   \<and> createAttestor ''ROT13'' = Inl (UnsupportedCryptoPolicy ''ROT13'')"
proof -
  have n: "''ROT13'' \<notin> set policyIds"
    by (simp add: policyIds_def HYBRID_ED25519_PLUS_DILITHIUM_def
        HYBRID_ECDSA_SECP256K1_PLUS_DILITHIUM_def CLASSICAL_ONLY_def PQC_ONLY_DILITHIUM_def)
  with createAttestor_only_for_hybrid_policies [of "''ROT13''"] show ?thesis by blast
qed

text \<open>C4 as stated fails: two of the four enumerated policies get no attestor.\<close>

theorem classical_only_has_no_attestor:
  "CLASSICAL_ONLY \<in> set policyIds
   \<and> createAttestor CLASSICAL_ONLY = Inl (NotYetImplemented ''CLASSICAL_ONLY'')
   \<and> PQC_ONLY_DILITHIUM \<in> set policyIds
   \<and> createAttestor PQC_ONLY_DILITHIUM = Inl (NotYetImplemented ''PQC_ONLY_DILITHIUM'')"
  by (simp add: policyIds_def createAttestor_def CLASSICAL_ONLY_def PQC_ONLY_DILITHIUM_def)

section \<open>Structure of hybrid attestations\<close>

lemma hybrid_ids_include_HYBRID:
  "str_includes HYBRID_ED25519_PLUS_DILITHIUM ''HYBRID''"
  "str_includes HYBRID_ECDSA_SECP256K1_PLUS_DILITHIUM ''HYBRID''"
  by (simp_all add: HYBRID_ED25519_PLUS_DILITHIUM_def HYBRID_ECDSA_SECP256K1_PLUS_DILITHIUM_def)

lemma missing_signature_invalid:
  "str_includes (cryptoPolicy att) ''HYBRID'' \<Longrightarrow> classicalSig att = None \<or> pqcSig att = None
   \<Longrightarrow> \<not> isValidAttestationStructure att"
  by (auto simp: isValidAttestationStructure_def)

text \<open>
  C5. An attestation under a hybrid policy (one of the two hybrid identifiers, or any
  policy whose name contains HYBRID) that lacks the classical or the post-quantum
  signature is structurally invalid. The attestation that either hybrid suite produces
  carries that suite's policy, a classical signature whose algorithm is the one the
  policy requires, and a post-quantum signature.
\<close>

theorem hybrid_attestation_needs_and_gets_both_signatures:
  "((cryptoPolicy att = HYBRID_ED25519_PLUS_DILITHIUM
      \<or> cryptoPolicy att = HYBRID_ECDSA_SECP256K1_PLUS_DILITHIUM
      \<or> str_includes (cryptoPolicy att) ''HYBRID'')
     \<and> (classicalSig att = None \<or> pqcSig att = None)
     \<longrightarrow> \<not> isValidAttestationStructure att)
   \<and> cryptoPolicy (ao_attestation (ecdsaDilithiumAttest ce sa clk input))
       = HYBRID_ECDSA_SECP256K1_PLUS_DILITHIUM
   \<and> map_option alg (classicalSig (ao_attestation (ecdsaDilithiumAttest ce sa clk input)))
       = Some ''secp256k1''
   \<and> fst (getRequiredAlgorithms HYBRID_ECDSA_SECP256K1_PLUS_DILITHIUM) = [''secp256k1'']
   \<and> map_option signatureHex (classicalSig (ao_attestation (ecdsaDilithiumAttest ce sa clk input)))
       = Some ''SECP256K1_SIGNATURE_HEX_PLACEHOLDER''
   \<and> pqcSig (ao_attestation (ecdsaDilithiumAttest ce sa clk input))
       = Some (signDilithium (sha3_256 ce (envelopeCanonicalBytes input)))
   \<and> cryptoPolicy (ao_attestation (ed25519DilithiumAttest ce sa clk input))
       = HYBRID_ED25519_PLUS_DILITHIUM
   \<and> map_option alg (classicalSig (ao_attestation (ed25519DilithiumAttest ce sa clk input)))
       = Some ''ed25519''
   \<and> fst (getRequiredAlgorithms HYBRID_ED25519_PLUS_DILITHIUM) = [''ed25519'']
   \<and> map_option signatureHex (classicalSig (ao_attestation (ed25519DilithiumAttest ce sa clk input)))
       = Some ''ED25519_SIGNATURE_HEX_PLACEHOLDER''
   \<and> pqcSig (ao_attestation (ed25519DilithiumAttest ce sa clk input))
       = Some (signDilithium (sha3_256 ce (envelopeCanonicalBytes input)))
   \<and> signatureHex (signDilithium (sha3_256 ce (envelopeCanonicalBytes input)))
       = ''DILITHIUM_SIGNATURE_HEX_PLACEHOLDER''"
proof -
  have a: "(cryptoPolicy att = HYBRID_ED25519_PLUS_DILITHIUM
      \<or> cryptoPolicy att = HYBRID_ECDSA_SECP256K1_PLUS_DILITHIUM
      \<or> str_includes (cryptoPolicy att) ''HYBRID'')
     \<and> (classicalSig att = None \<or> pqcSig att = None)
     \<longrightarrow> \<not> isValidAttestationStructure att"
    using hybrid_ids_include_HYBRID missing_signature_invalid [of att] by metis
  have b: "cryptoPolicy (ao_attestation (ecdsaDilithiumAttest ce sa clk input))
       = HYBRID_ECDSA_SECP256K1_PLUS_DILITHIUM"
    "map_option alg (classicalSig (ao_attestation (ecdsaDilithiumAttest ce sa clk input)))
       = Some ''secp256k1''"
    "map_option signatureHex (classicalSig (ao_attestation (ecdsaDilithiumAttest ce sa clk input)))
       = Some ''SECP256K1_SIGNATURE_HEX_PLACEHOLDER''"
    "pqcSig (ao_attestation (ecdsaDilithiumAttest ce sa clk input))
       = Some (signDilithium (sha3_256 ce (envelopeCanonicalBytes input)))"
    by (simp_all add: ecdsaDilithiumAttest_def Let_def signEcdsaSecp256k1_def
        HYBRID_ECDSA_SECP256K1_PLUS_DILITHIUM_def signDilithium_def)
  have c: "cryptoPolicy (ao_attestation (ed25519DilithiumAttest ce sa clk input))
       = HYBRID_ED25519_PLUS_DILITHIUM"
    "map_option alg (classicalSig (ao_attestation (ed25519DilithiumAttest ce sa clk input)))
       = Some ''ed25519''"
    "map_option signatureHex (classicalSig (ao_attestation (ed25519DilithiumAttest ce sa clk input)))
       = Some ''ED25519_SIGNATURE_HEX_PLACEHOLDER''"
    "pqcSig (ao_attestation (ed25519DilithiumAttest ce sa clk input))
       = Some (signDilithium (sha3_256 ce (envelopeCanonicalBytes input)))"
    by (simp_all add: ed25519DilithiumAttest_def Let_def signEd25519_def
        HYBRID_ED25519_PLUS_DILITHIUM_def signDilithium_def)
  have d: "fst (getRequiredAlgorithms HYBRID_ECDSA_SECP256K1_PLUS_DILITHIUM) = [''secp256k1'']"
    "fst (getRequiredAlgorithms HYBRID_ED25519_PLUS_DILITHIUM) = [''ed25519'']"
    using policy_ids_distinct by (simp_all add: getRequiredAlgorithms_def)
  have e: "signatureHex (signDilithium (sha3_256 ce (envelopeCanonicalBytes input)))
       = ''DILITHIUM_SIGNATURE_HEX_PLACEHOLDER''"
    by (simp add: signDilithium_def)
  from a b c d e show ?thesis by blast
qed

theorem hybrid_attestation_needs_and_gets_both_signatures_witness:
  "cryptoPolicy attNoPqc = HYBRID_ECDSA_SECP256K1_PLUS_DILITHIUM
   \<and> pqcSig attNoPqc = None
   \<and> \<not> isValidAttestationStructure attNoPqc"
proof -
  have p: "cryptoPolicy attNoPqc = HYBRID_ECDSA_SECP256K1_PLUS_DILITHIUM"
    by (simp add: attNoPqc_def ecdsaDilithiumAttest_def Let_def
        HYBRID_ECDSA_SECP256K1_PLUS_DILITHIUM_def)
  have q: "pqcSig attNoPqc = None" by (simp add: attNoPqc_def)
  from hybrid_attestation_needs_and_gets_both_signatures [of attNoPqc] p q
  show ?thesis by blast
qed

lemma suite_output_is_well_formed:
  "randomUUID ce \<noteq> [] \<Longrightarrow> sha3_256 ce (envelopeCanonicalBytes input) \<noteq> []
   \<Longrightarrow> isValidAttestationStructure (ao_attestation (ecdsaDilithiumAttest ce sa clk input))
     \<and> isValidAttestationStructure (ao_attestation (ed25519DilithiumAttest ce sa clk input))"
  by (cases "sha3_256 ce (envelopeCanonicalBytes input)")
     (simp_all add: isValidAttestationStructure_def ecdsaDilithiumAttest_def
      ed25519DilithiumAttest_def Let_def hex_of_bytes_def)

section \<open>Dependency cycles in rotation planning\<close>

lemma closed_rtrancl:
  assumes "\<forall>y z. y \<in> F \<longrightarrow> (y, z) \<in> E \<longrightarrow> z \<in> F" and "(a, b) \<in> E\<^sup>*" and "a \<in> F"
  shows "b \<in> F"
  using assms(2,3,1) by (induction rule: rtrancl_induct) blast+

lemma no_cycle_through_new:
  assumes closed: "\<forall>y z. y \<in> F \<longrightarrow> (y, z) \<in> E \<longrightarrow> z \<in> F"
    and succ: "\<forall>z. (x, z) \<in> E \<longrightarrow> z \<in> F" and "x \<notin> F"
  shows "(x, x) \<notin> E\<^sup>+"
proof
  assume "(x, x) \<in> E\<^sup>+"
  then obtain d where "(x, d) \<in> E" "(d, x) \<in> E\<^sup>*"
    by (meson tranclD)
  with succ have "d \<in> F" by blast
  with closed \<open>(d, x) \<in> E\<^sup>*\<close> have "x \<in> F" by (blast intro: closed_rtrancl)
  with assms(3) show False by contradiction
qed

lemma dfs_finish:
  assumes inv: "dfs_inv nodes (v, insert x s)" and "x \<notin> s" and "x \<in> v"
    and succ: "\<forall>z. (x, z) \<in> depEdges nodes \<longrightarrow> z \<in> finished (v, insert x s)"
  shows "dfs_inv nodes (v, insert x s - {x})"
proof -
  let ?F = "finished (v, insert x s)"
  have s: "insert x s - {x} = s" using assms(2) by auto
  have F': "finished (v, s) = insert x ?F" using assms(2,3) by (auto simp: finished_def)
  have xF: "x \<notin> ?F" by (simp add: finished_def)
  have closed: "\<forall>y z. y \<in> ?F \<longrightarrow> (y, z) \<in> depEdges nodes \<longrightarrow> z \<in> ?F"
    using inv by (simp add: dfs_inv_def)
  have acyc: "\<forall>y. y \<in> ?F \<longrightarrow> (y, y) \<notin> (depEdges nodes)\<^sup>+"
    using inv by (simp add: dfs_inv_def)
  have nx: "(x, x) \<notin> (depEdges nodes)\<^sup>+"
    using closed succ xF by (rule no_cycle_through_new)
  have "s \<subseteq> v" using inv by (auto simp: dfs_inv_def)
  moreover have "\<forall>y z. y \<in> insert x ?F \<longrightarrow> (y, z) \<in> depEdges nodes \<longrightarrow> z \<in> insert x ?F"
    using closed succ by blast
  moreover have "\<forall>y. y \<in> insert x ?F \<longrightarrow> (y, y) \<notin> (depEdges nodes)\<^sup>+"
    using acyc nx by blast
  ultimately show ?thesis unfolding s dfs_inv_def F' by simp
qed

lemma dfs_push:
  assumes "dfs_inv nodes (v, s)" and "x \<notin> v"
  shows "dfs_inv nodes (insert x v, insert x s)"
    and "finished (insert x v, insert x s) = finished (v, s)"
proof -
  show f: "finished (insert x v, insert x s) = finished (v, s)"
    using assms(2) by (auto simp: finished_def)
  show "dfs_inv nodes (insert x v, insert x s)"
    using assms unfolding dfs_inv_def f by auto
qed

lemma dfs_no_cycle_found:
  "dfs_inv nodes st \<Longrightarrow> hasCycle nodes st x = (False, st')
     \<Longrightarrow> dfs_inv nodes st' \<and> snd st' = snd st \<and> fst st \<subseteq> fst st' \<and> x \<in> finished st'"
  "dfs_inv nodes st \<Longrightarrow> hasCycleDeps nodes st ds = (False, st')
     \<Longrightarrow> dfs_inv nodes st' \<and> snd st' = snd st \<and> fst st \<subseteq> fst st' \<and> set ds \<subseteq> finished st'"
proof (induction nodes st x and nodes st ds arbitrary: st' and st' rule: hasCycle_hasCycleDeps.induct)
  case (1 nodes visited inStack nodeId)
  note inv = "1.prems"(1) and res = "1.prems"(2)
  show ?case
  proof (cases "nodeId \<in> inStack")
    case True
    with res show ?thesis by (simp add: hasCycle.simps)
  next
    case notStack: False
    show ?thesis
    proof (cases "nodeId \<in> visited")
      case True
      with notStack res inv show ?thesis
        by (auto simp: hasCycle.simps finished_def)
    next
      case notVisited: False
      note push = dfs_push [OF inv notVisited]
      show ?thesis
      proof (cases "nodeMap nodes nodeId")
        case None
        then have noedge: "\<forall>z. (nodeId, z) \<in> depEdges nodes
            \<longrightarrow> z \<in> finished (insert nodeId visited, insert nodeId inStack)"
          by (simp add: depEdges_def)
        have st': "st' = (insert nodeId visited, insert nodeId inStack - {nodeId})"
          using res notStack notVisited None by (simp add: hasCycle.simps)
        have "dfs_inv nodes st'"
          unfolding st' using push(1) notStack _ noedge by (rule dfs_finish) simp
        then show ?thesis using notStack by (auto simp: st' finished_def)
      next
        case (Some node)
        let ?r = "hasCycleDeps nodes (insert nodeId visited, insert nodeId inStack)
                    (dependencies node)"
        have nf: "\<not> fst ?r"
          using res notStack notVisited Some by (auto simp: hasCycle.simps Let_def split: if_splits)
        then have r: "?r = (False, snd ?r)" by (cases ?r) simp
        have st': "st' = (fst (snd ?r), snd (snd ?r) - {nodeId})"
          using res notStack notVisited Some nf by (simp add: hasCycle.simps Let_def)
        from "1.IH" [OF notStack notVisited Some push(1) r]
        have i2: "dfs_inv nodes (snd ?r)"
          and s2: "snd (snd ?r) = insert nodeId inStack"
          and v2: "insert nodeId visited \<subseteq> fst (snd ?r)"
          and d2: "set (dependencies node) \<subseteq> finished (snd ?r)"
          by simp_all
        have eq2: "snd ?r = (fst (snd ?r), insert nodeId inStack)"
          using s2 by (cases "snd ?r") simp
        have succ: "\<forall>z. (nodeId, z) \<in> depEdges nodes
            \<longrightarrow> z \<in> finished (fst (snd ?r), insert nodeId inStack)"
          using d2 Some eq2 by (auto simp: depEdges_def)
        have "dfs_inv nodes (fst (snd ?r), insert nodeId inStack - {nodeId})"
          using i2 notStack v2 succ eq2 by (intro dfs_finish) auto
        then show ?thesis
          using notStack v2 s2 by (auto simp: st' finished_def)
      qed
    qed
  qed
next
  case (2 nodes st)
  then show ?case by simp
next
  case (3 nodes st dep deps)
  note inv = "3.prems"(1) and res = "3.prems"(2)
  let ?r = "hasCycle nodes st dep"
  have nf: "\<not> fst ?r" using res by (auto simp: Let_def split: if_splits)
  then have r: "?r = (False, snd ?r)" by (cases ?r) simp
  from "3.IH"(1) [OF inv r]
  have i1: "dfs_inv nodes (snd ?r)" and s1: "snd (snd ?r) = snd st"
    and v1: "fst st \<subseteq> fst (snd ?r)" and d1: "dep \<in> finished (snd ?r)"
    by simp_all
  have rest: "hasCycleDeps nodes (snd ?r) deps = (False, st')"
    using res nf by (simp add: Let_def)
  from "3.IH"(2) [OF refl nf i1 rest]
  have i2: "dfs_inv nodes st'" and s2: "snd st' = snd (snd ?r)"
    and v2: "fst (snd ?r) \<subseteq> fst st'" and d2: "set deps \<subseteq> finished st'"
    by simp_all
  have "dep \<in> finished st'" using d1 s2 v2 by (auto simp: finished_def)
  with i2 s1 s2 v1 v2 d2 show ?case by auto
qed


lemma validateLoop_no_cycle:
  "dfs_inv nodes st \<Longrightarrow> snd st = {} \<Longrightarrow> validateLoop nodes st rest = Inr ()
   \<Longrightarrow> \<exists>st'. dfs_inv nodes st' \<and> snd st' = {} \<and> fst st \<subseteq> fst st'
          \<and> node_id ` set rest \<subseteq> fst st'"
proof (induction rest arbitrary: st)
  case Nil
  then have "dfs_inv nodes st \<and> snd st = {} \<and> fst st \<subseteq> fst st
      \<and> node_id ` set [] \<subseteq> fst st" by simp
  then show ?case by blast
next
  case (Cons node rest)
  let ?r = "hasCycle nodes st (node_id node)"
  have nf: "\<not> fst ?r" using Cons.prems(3) by (auto simp: Let_def split: if_splits)
  then have r: "?r = (False, snd ?r)" by (cases ?r) simp
  from dfs_no_cycle_found(1) [OF Cons.prems(1) r]
  have i1: "dfs_inv nodes (snd ?r)" and s1: "snd (snd ?r) = {}"
    and v1: "fst st \<subseteq> fst (snd ?r)"
    and d1: "node_id node \<in> finished (snd ?r)"
    using Cons.prems(2) by simp_all
  have "validateLoop nodes (snd ?r) rest = Inr ()"
    using Cons.prems(3) nf by (simp add: Let_def)
  from Cons.IH [OF i1 s1 this] obtain st' where
    st': "dfs_inv nodes st'" "snd st' = {}" "fst (snd ?r) \<subseteq> fst st'"
      "node_id ` set rest \<subseteq> fst st'" by blast
  have "node_id node \<in> fst st'" using d1 st'(3) by (auto simp: finished_def)
  with st' v1 have "dfs_inv nodes st' \<and> snd st' = {} \<and> fst st \<subseteq> fst st'
      \<and> node_id ` set (node # rest) \<subseteq> fst st'" by auto
  then show ?case by blast
qed

lemma nodeMap_Some_id: "nodeMap nodes x = Some n \<Longrightarrow> x \<in> node_id ` set nodes"
  unfolding nodeMap_def by (auto dest!: map_of_SomeD)

lemma dfs_inv_initial: "dfs_inv nodes ({}, {})"
  by (simp add: dfs_inv_def finished_def)

lemma cycle_is_detected:
  assumes "hasDependencyCycle nodes"
  shows "\<exists>i \<in> node_id ` set nodes. validateNoCycles nodes = Inl (DependencyCycle i)"
proof (cases "validateNoCycles nodes")
  case (Inr u)
  then have None: "validateNoCycles nodes = Inr ()" by simp
  from validateLoop_no_cycle [OF dfs_inv_initial _ None [unfolded validateNoCycles_def]]
  obtain st' where inv: "dfs_inv nodes st'" and s: "snd st' = {}"
    and all: "node_id ` set nodes \<subseteq> fst st'" by auto
  from assms obtain x where x: "(x, x) \<in> (depEdges nodes)\<^sup>+"
    by (auto simp: hasDependencyCycle_def)
  then obtain z where "(x, z) \<in> depEdges nodes" by (meson tranclD)
  then have "x \<in> node_id ` set nodes"
    by (auto simp: depEdges_def dest: nodeMap_Some_id)
  with all s have "x \<in> finished st'" by (auto simp: finished_def)
  with inv x show ?thesis by (simp add: dfs_inv_def)
next
  case (Inl e)
  have "validateLoop nodes st rest = Inl e
      \<Longrightarrow> \<exists>i \<in> node_id ` set rest. e = DependencyCycle i" for st rest
    by (induction rest arbitrary: st) (auto simp: Let_def split: if_splits)
  with Inl show ?thesis by (auto simp: validateNoCycles_def)
qed


lemma stack_kept:
  "hasCycle nodes st x = (False, st') \<Longrightarrow> snd st' = snd st"
  "hasCycleDeps nodes st ds = (False, st') \<Longrightarrow> snd st' = snd st"
proof (induction nodes st x and nodes st ds arbitrary: st' and st' rule: hasCycle_hasCycleDeps.induct)
  case (1 nodes visited inStack nodeId)
  show ?case
  proof (cases "nodeId \<in> inStack \<or> nodeId \<in> visited")
    case True
    with "1.prems" show ?thesis by (auto simp: hasCycle.simps split: if_splits)
  next
    case False
    then have notStack: "nodeId \<notin> inStack" and notVisited: "nodeId \<notin> visited" by auto
    show ?thesis
    proof (cases "nodeMap nodes nodeId")
      case None
      with "1.prems" False show ?thesis by (auto simp: hasCycle.simps)
    next
      case (Some node)
      let ?r = "hasCycleDeps nodes (insert nodeId visited, insert nodeId inStack)
                  (dependencies node)"
      have nf: "\<not> fst ?r"
        using "1.prems" False Some by (auto simp: hasCycle.simps Let_def split: if_splits)
      then have r: "?r = (False, snd ?r)" by (cases ?r) simp
      from "1.IH" [OF notStack notVisited Some r]
      have "snd (snd ?r) = insert nodeId inStack" by simp
      moreover have "st' = (fst (snd ?r), snd (snd ?r) - {nodeId})"
        using "1.prems" False Some nf by (simp add: hasCycle.simps Let_def)
      ultimately show ?thesis using notStack by auto
    qed
  qed
next
  case (2 nodes st)
  then show ?case by simp
next
  case (3 nodes st dep deps)
  let ?r = "hasCycle nodes st dep"
  have nf: "\<not> fst ?r" using "3.prems" by (auto simp: Let_def split: if_splits)
  then have r: "?r = (False, snd ?r)" by (cases ?r) simp
  have rest: "hasCycleDeps nodes (snd ?r) deps = (False, st')"
    using "3.prems" nf by (simp add: Let_def)
  from "3.IH"(1) [OF r] "3.IH"(2) [OF refl nf rest] show ?case by simp
qed

lemma found_cycle_is_real:
  "hasCycle nodes st x = (True, st') \<Longrightarrow> \<forall>y \<in> snd st. (y, x) \<in> (depEdges nodes)\<^sup>+
     \<Longrightarrow> hasDependencyCycle nodes"
  "hasCycleDeps nodes st ds = (True, st')
     \<Longrightarrow> \<forall>d \<in> set ds. \<forall>y \<in> snd st. (y, d) \<in> (depEdges nodes)\<^sup>+
     \<Longrightarrow> hasDependencyCycle nodes"
proof (induction nodes st x and nodes st ds arbitrary: st' and st' rule: hasCycle_hasCycleDeps.induct)
  case (1 nodes visited inStack nodeId)
  show ?case
  proof (cases "nodeId \<in> inStack")
    case True
    with "1.prems"(2) show ?thesis by (auto simp: hasDependencyCycle_def)
  next
    case notStack: False
    then have notVisited: "nodeId \<notin> visited"
      using "1.prems"(1) by (auto simp: hasCycle.simps split: if_splits)
    from "1.prems"(1) notStack notVisited obtain node where
      Some: "nodeMap nodes nodeId = Some node"
      by (cases "nodeMap nodes nodeId") (auto simp: hasCycle.simps)
    let ?r = "hasCycleDeps nodes (insert nodeId visited, insert nodeId inStack)
                (dependencies node)"
    have "fst ?r"
      using "1.prems"(1) notStack notVisited Some
      by (auto simp: hasCycle.simps Let_def split: if_splits)
    then have r: "?r = (True, snd ?r)" by (cases ?r) simp
    have "\<forall>d \<in> set (dependencies node). \<forall>y \<in> insert nodeId inStack.
            (y, d) \<in> (depEdges nodes)\<^sup>+"
    proof (intro ballI)
      fix d y assume d: "d \<in> set (dependencies node)" and y: "y \<in> insert nodeId inStack"
      have e: "(nodeId, d) \<in> depEdges nodes" using Some d by (auto simp: depEdges_def)
      show "(y, d) \<in> (depEdges nodes)\<^sup>+"
      proof (cases "y = nodeId")
        case True
        with e show ?thesis by auto
      next
        case False
        with y "1.prems"(2) have "(y, nodeId) \<in> (depEdges nodes)\<^sup>+" by auto
        with e show ?thesis by (blast intro: trancl_into_trancl)
      qed
    qed
    with "1.IH" [OF notStack notVisited Some r] show ?thesis by simp
  qed
next
  case (2 nodes st)
  then show ?case by simp
next
  case (3 nodes st dep deps)
  let ?r = "hasCycle nodes st dep"
  show ?case
  proof (cases "fst ?r")
    case True
    then have r: "?r = (True, snd ?r)" by (cases ?r) simp
    from "3.IH"(1) [OF r] "3.prems"(2) show ?thesis by simp
  next
    case False
    then have r: "?r = (False, snd ?r)" by (cases ?r) simp
    have rest: "hasCycleDeps nodes (snd ?r) deps = (True, st')"
      using "3.prems"(1) False by (simp add: Let_def)
    have "snd (snd ?r) = snd st" using stack_kept(1) [OF r] .
    with "3.IH"(2) [OF refl False rest] "3.prems"(2) show ?thesis by simp
  qed
qed

lemma validateLoop_sound:
  "snd st = {} \<Longrightarrow> validateLoop nodes st rest = Inl e \<Longrightarrow> hasDependencyCycle nodes"
proof (induction rest arbitrary: st)
  case Nil
  then show ?case by simp
next
  case (Cons node rest)
  let ?r = "hasCycle nodes st (node_id node)"
  show ?case
  proof (cases "fst ?r")
    case True
    then have r: "?r = (True, snd ?r)" by (cases ?r) simp
    from found_cycle_is_real(1) [OF r] Cons.prems(1) show ?thesis by simp
  next
    case False
    then have r: "?r = (False, snd ?r)" by (cases ?r) simp
    have "snd (snd ?r) = {}" using stack_kept(1) [OF r] Cons.prems(1) by simp
    moreover have "validateLoop nodes (snd ?r) rest = Inl e"
      using Cons.prems(2) False by (simp add: Let_def)
    ultimately show ?thesis by (rule Cons.IH)
  qed
qed

lemma validateNoCycles_iff:
  "isl (validateNoCycles nodes) = hasDependencyCycle nodes"
proof
  assume "isl (validateNoCycles nodes)"
  then obtain e where "validateLoop nodes ({}, {}) nodes = Inl e"
    by (cases "validateNoCycles nodes") (auto simp: validateNoCycles_def)
  with validateLoop_sound [of "({}, {})" nodes nodes e] show "hasDependencyCycle nodes" by simp
next
  assume "hasDependencyCycle nodes"
  with cycle_is_detected [of nodes] show "isl (validateNoCycles nodes)" by auto
qed

lemma find_invalid_None: "(find (\<lambda>node. \<not> isValidRotationNode node) nodes = None)
    = list_all isValidRotationNode nodes"
  by (induction nodes) auto

lemma find_invalid_Some: "find (\<lambda>node. \<not> isValidRotationNode node) nodes = Some n
    \<Longrightarrow> \<not> list_all isValidRotationNode nodes"
  using find_invalid_None [of nodes] by simp

lemma buildPlan_acyclic:
  assumes "list_all isValidRotationNode nodes" "isValidConstraints cons"
    "\<not> hasDependencyCycle nodes"
  shows "buildPlan adapter nodes cons = (solve adapter nodes cons, 1)"
proof -
  have "\<not> isl (validateNoCycles nodes)" using assms(3) by (simp add: validateNoCycles_iff)
  then obtain u where "validateNoCycles nodes = Inr u" by (cases "validateNoCycles nodes") auto
  with assms(1,2) show ?thesis
    by (simp add: buildPlan_def find_invalid_None [THEN iffD2])
qed

text \<open>
  C8 (as amended). When the dependency graph of the nodes contains a cycle, \<open>buildPlan\<close>
  never returns a plan and never calls the adapter, whatever the adapter and the
  constraints. If every node and the constraint set are structurally valid, the failure
  is the dependency-cycle error, naming one of the nodes; otherwise it is the error of the
  structural check, which runs first.
\<close>

theorem cyclic_nodes_yield_no_plan:
  assumes "hasDependencyCycle nodes"
  shows "isl (fst (buildPlan adapter nodes cons))
         \<and> snd (buildPlan adapter nodes cons) = 0
         \<and> (list_all isValidRotationNode nodes \<and> isValidConstraints cons
              \<longrightarrow> (\<exists>i \<in> node_id ` set nodes.
                     fst (buildPlan adapter nodes cons) = Inl (DependencyCycle i)))
         \<and> (\<not> list_all isValidRotationNode nodes
              \<longrightarrow> (\<exists>i. fst (buildPlan adapter nodes cons) = Inl (InvalidRotationNode i)))
         \<and> (list_all isValidRotationNode nodes \<and> \<not> isValidConstraints cons
              \<longrightarrow> fst (buildPlan adapter nodes cons) = Inl InvalidRotationConstraints)"
proof -
  from cycle_is_detected [OF assms] obtain i where i: "i \<in> node_id ` set nodes"
    and v: "validateNoCycles nodes = Inl (DependencyCycle i)" by blast
  show ?thesis
  proof (cases "find (\<lambda>node. \<not> isValidRotationNode node) nodes")
    case (Some n)
    then have "\<not> list_all isValidRotationNode nodes" by (rule find_invalid_Some)
    with Some show ?thesis by (simp add: buildPlan_def)
  next
    case None
    then have valid: "list_all isValidRotationNode nodes" by (simp add: find_invalid_None)
    show ?thesis
    proof (cases "isValidConstraints cons")
      case True
      with None v have "buildPlan adapter nodes cons = (Inl (DependencyCycle i), 0)"
        by (simp add: buildPlan_def)
      with i valid True show ?thesis by auto
    next
      case False
      with None have "buildPlan adapter nodes cons = (Inl InvalidRotationConstraints, 0)"
        by (simp add: buildPlan_def)
      with valid False show ?thesis by simp
    qed
  qed
qed

lemma nodeMap_cycleABC:
  "nodeMap cycleABC ''A'' = Some nodeA" "nodeMap cycleABC ''B'' = Some nodeB"
  "nodeMap cycleABC ''C'' = Some nodeC"
  by (simp_all add: nodeMap_def cycleABC_def nodeA_def nodeB_def nodeC_def)

lemma cycleABC_has_cycle: "hasDependencyCycle cycleABC"
proof -
  have "(''A'', ''B'') \<in> depEdges cycleABC" "(''B'', ''C'') \<in> depEdges cycleABC"
    "(''C'', ''A'') \<in> depEdges cycleABC"
    by (simp_all add: depEdges_def nodeMap_cycleABC) (simp_all add: nodeA_def nodeB_def nodeC_def)
  then have "(''A'', ''A'') \<in> (depEdges cycleABC)\<^sup>+"
    by (meson trancl.r_into_trancl trancl_trans)
  then show ?thesis unfolding hasDependencyCycle_def by blast
qed

lemma cycleABC_valid: "list_all isValidRotationNode cycleABC"
  by (simp add: cycleABC_def isValidRotationNode_def nodeA_def nodeB_def nodeC_def)

theorem cyclic_nodes_yield_no_plan_witness:
  "hasDependencyCycle cycleABC
   \<and> isl (fst (buildPlan (greedyRotationAdapter localeCompare0) cycleABC rotationOk))
   \<and> snd (buildPlan (greedyRotationAdapter localeCompare0) cycleABC rotationOk) = 0
   \<and> (\<exists>i \<in> node_id ` set cycleABC.
         fst (buildPlan (greedyRotationAdapter localeCompare0) cycleABC rotationOk)
           = Inl (DependencyCycle i))"
proof -
  have c: "isValidConstraints rotationOk" by (simp add: isValidConstraints_def rotationOk_def)
  from cyclic_nodes_yield_no_plan [OF cycleABC_has_cycle,
      of "greedyRotationAdapter localeCompare0" rotationOk] cycleABC_valid c cycleABC_has_cycle
  show ?thesis by blast
qed

text \<open>
  C8 as stated fails for a constraint set that is not valid: the nodes A, B, C with
  A depending on B, B on C and C on A, planned with \<open>maxConcurrent = 0\<close>, are refused
  with the invalid-constraints error, not with the dependency-cycle error.
\<close>

theorem cycle_with_invalid_constraints_fails_otherwise:
  "hasDependencyCycle cycleABC
   \<and> buildPlan (greedyRotationAdapter localeCompare0) cycleABC rotationNoSlot
       = (Inl InvalidRotationConstraints, 0)"
  using cycleABC_has_cycle
  by (simp add: buildPlan_def cycleABC_def isValidRotationNode_def nodeA_def nodeB_def nodeC_def
      isValidConstraints_def rotationNoSlot_def)

lemma validateNoCycles_cycleABC: "validateNoCycles cycleABC = Inl (DependencyCycle ''A'')"
  by (simp add: validateNoCycles_def cycleABC_def hasCycle.simps nodeMap_def Let_def
      nodeA_def nodeB_def nodeC_def)

lemma validateNoCycles_chainAB: "validateNoCycles chainAB = Inr ()"
  by (simp add: validateNoCycles_def chainAB_def hasCycle.simps nodeMap_def Let_def
      nodeA_def nodeB_def)


text \<open>When no two nodes share an identifier, the graph the planner reads is the graph of
  the node list.\<close>

lemma depEdges_distinct:
  assumes "distinct (map node_id nodes)"
  shows "depEdges nodes =
           {(x, y). \<exists>n \<in> set nodes. node_id n = x \<and> y \<in> set (dependencies n)}"
proof -
  have d: "distinct (map fst (rev (map (\<lambda>n. (node_id n, n)) nodes)))"
    using assms by (simp add: rev_map [symmetric] comp_def)
  have "(nodeMap nodes x = Some n) = (n \<in> set nodes \<and> node_id n = x)" for x n
    unfolding nodeMap_def map_of_eq_Some_iff [OF d] by auto
  then show ?thesis by (auto simp: depEdges_def)
qed
end
